theory Spec2Isabelle
  imports Main "HOL-Library.Char_ord" "HOL-Library.List_Lexorder"
begin

section \<open>Python strings\<close>

text \<open>
  A Python \<^verbatim>\<open>str\<close> is modelled as a \<^typ>\<open>string\<close> whose characters are the code
  points below 256.  The functions of this section are the \<^verbatim>\<open>str\<close> methods and operators
  that the note store and the search index call.
\<close>

definition nl :: char where
  "nl = CHR 0x0A"

definition cr :: char where
  "cr = CHR 0x0D"

text \<open>\<^verbatim>\<open>str.isspace\<close> on one character; the regular expression class \<^verbatim>\<open>\s\<close> of a
  \<^verbatim>\<open>str\<close> pattern is the same set.\<close>

definition str_isspace :: "char \<Rightarrow> bool" where
  "str_isspace c = ((of_char c :: nat) \<in> {9, 10, 11, 12, 13, 28, 29, 30, 31, 32, 133, 160})"

definition char_lower :: "char \<Rightarrow> char" where
  "char_lower c =
     (let n = (of_char c :: nat)
      in if (65 \<le> n \<and> n \<le> 90) \<or> (192 \<le> n \<and> n \<le> 222 \<and> n \<noteq> 215)
         then char_of (n + 32) else c)"

definition str_lower :: "string \<Rightarrow> string" where
  "str_lower s = map char_lower s"

text \<open>\<^verbatim>\<open>s.strip()\<close>: leading and trailing whitespace removed.\<close>

definition str_strip :: "string \<Rightarrow> string" where
  "str_strip s = rev (dropWhile str_isspace (rev (dropWhile str_isspace s)))"

text \<open>\<^verbatim>\<open>s.split()\<close>: the maximal runs of non-whitespace characters, in order.  The first
  argument is the word read so far.\<close>

fun split_acc :: "string \<Rightarrow> string \<Rightarrow> string list" where
  "split_acc w [] = (if w = [] then [] else [w])"
| "split_acc w (c # s) =
     (if str_isspace c then (if w = [] then split_acc [] s else w # split_acc [] s)
      else split_acc (w @ [c]) s)"

definition str_split :: "string \<Rightarrow> string list" where
  "str_split s = split_acc [] s"

text \<open>\<^verbatim>\<open>s.replace(old, new)\<close> for a one-character \<^verbatim>\<open>old\<close>.\<close>

definition str_replace_char :: "string \<Rightarrow> char \<Rightarrow> string \<Rightarrow> string" where
  "str_replace_char s old new = concat (map (\<lambda>c. if c = old then new else [c]) s)"

fun startswith :: "string \<Rightarrow> string \<Rightarrow> bool" where
  "startswith s [] = True"
| "startswith [] (p # ps) = False"
| "startswith (c # s) (p # ps) = (c = p \<and> startswith s ps)"

definition endswith :: "string \<Rightarrow> string \<Rightarrow> bool" where
  "endswith s p = startswith (rev s) (rev p)"

text \<open>\<^verbatim>\<open>t in s\<close> for two strings: \<^verbatim>\<open>t\<close> occurs in \<^verbatim>\<open>s\<close> as a contiguous substring.\<close>

fun py_in :: "string \<Rightarrow> string \<Rightarrow> bool" where
  "py_in t [] = (t = [])"
| "py_in t (c # s) = (startswith (c # s) t \<or> py_in t s)"

text \<open>\<^verbatim>\<open>sep.join(xs)\<close>.\<close>

fun str_join :: "string \<Rightarrow> string list \<Rightarrow> string" where
  "str_join sep [] = []"
| "str_join sep [x] = x"
| "str_join sep (x # y # ys) = x @ sep @ str_join sep (y # ys)"

section \<open>Python values, exceptions and the Note class\<close>

text \<open>
  The exceptions that the modelled code can meet.  \<open>Unmodelled\<close> marks a run of a
  library function on arguments whose Python behaviour this development does not describe.
\<close>

datatype py_error =
    AttributeError string
  | TypeError
  | ValueError
  | YAMLError
  | FileNotFoundError
  | FileExistsError
  | IsADirectoryError
  | NotADirectoryError
  | UnicodeDecodeError
  | PermissionError
  | Unmodelled

text \<open>
  The values a field of a note can hold: what \<^verbatim>\<open>yaml.safe_load\<close> builds and what callers
  pass.  A \<^verbatim>\<open>datetime\<close> object is identified with the text its \<^verbatim>\<open>isoformat()\<close> returns; a
  \<^verbatim>\<open>dict\<close> is the list of its items in insertion order.
\<close>

datatype pyval =
    PNone
  | PBool bool
  | PInt int
  | PStr string
  | PDatetime string
  | PList "pyval list"
  | PDict "(pyval \<times> pyval) list"

text \<open>\<^verbatim>\<open>class Note\<close> of \<^verbatim>\<open>file_manager.py\<close>.  \<^verbatim>\<open>filepath\<close> and \<^verbatim>\<open>content\<close> are always
  strings in the code below; the four metadata fields hold whatever the front-matter gave.\<close>

record Note =
  filepath :: string
  title :: pyval
  tags :: pyval
  created :: pyval
  updated :: pyval
  content :: string

text \<open>\<^verbatim>\<open>for x in v\<close>: the items a value yields when iterated, or \<^verbatim>\<open>TypeError\<close>.\<close>

fun py_iter :: "pyval \<Rightarrow> py_error + pyval list" where
  "py_iter (PList xs) = Inr xs"
| "py_iter (PStr s) = Inr (map (\<lambda>c. PStr [c]) s)"
| "py_iter (PDict kvs) = Inr (map fst kvs)"
| "py_iter v = Inl TypeError"

text \<open>\<^verbatim>\<open>v.lower()\<close>: only \<^verbatim>\<open>str\<close> has the method among the values modelled.\<close>

fun py_lower :: "pyval \<Rightarrow> py_error + string" where
  "py_lower (PStr s) = Inr (str_lower s)"
| "py_lower v = Inl (AttributeError ''lower'')"

section \<open>The search index (\<^verbatim>\<open>search.py\<close>)\<close>

text \<open>One item of \<^verbatim>\<open>SearchIndex.notes_data\<close>.\<close>

record entry =
  entry_id :: string
  entry_title :: string
  entry_tags :: "string list"
  entry_content :: string
  original_note :: Note

text \<open>The list comprehension \<^verbatim>\<open>[tag.lower() for tag in note.tags]\<close> over the items already
  obtained from the iteration.\<close>

fun lower_all :: "pyval list \<Rightarrow> py_error + string list" where
  "lower_all [] = Inr []"
| "lower_all (v # vs) =
     (case py_lower v of
        Inl e \<Rightarrow> Inl e
      | Inr s \<Rightarrow> (case lower_all vs of Inl e \<Rightarrow> Inl e | Inr ss \<Rightarrow> Inr (s # ss)))"

definition make_entry :: "Note \<Rightarrow> py_error + entry" where
  "make_entry n =
     (case py_lower (title n) of
        Inl e \<Rightarrow> Inl e
      | Inr t \<Rightarrow>
         (case py_iter (tags n) of
            Inl e \<Rightarrow> Inl e
          | Inr vs \<Rightarrow>
             (case lower_all vs of
                Inl e \<Rightarrow> Inl e
              | Inr ts \<Rightarrow>
                 Inr \<lparr>entry_id = filepath n, entry_title = t, entry_tags = ts,
                      entry_content = str_lower (content n), original_note = n\<rparr>)))"

text \<open>\<^verbatim>\<open>build_index\<close>: the loop appends to \<^verbatim>\<open>notes_data\<close>, which starts empty; an exception
  leaves the method.  The first argument is \<^verbatim>\<open>notes_data\<close> so far.\<close>

fun build_loop :: "entry list \<Rightarrow> Note list \<Rightarrow> py_error + entry list" where
  "build_loop acc [] = Inr acc"
| "build_loop acc (n # ns) =
     (case make_entry n of Inl e \<Rightarrow> Inl e | Inr en \<Rightarrow> build_loop (acc @ [en]) ns)"

definition build_index :: "Note list \<Rightarrow> py_error + entry list" where
  "build_index notes = build_loop [] notes"

text \<open>The inner loop of \<^verbatim>\<open>search\<close> over the query terms, with its \<^verbatim>\<open>break\<close>.\<close>

fun all_terms_match :: "string list \<Rightarrow> string \<Rightarrow> bool" where
  "all_terms_match [] text = True"
| "all_terms_match (t # ts) text = (if \<not> py_in t text then False else all_terms_match ts text)"

definition text_to_search :: "bool \<Rightarrow> bool \<Rightarrow> bool \<Rightarrow> entry \<Rightarrow> string list" where
  "text_to_search search_title search_tags search_content item =
     (if search_title then [entry_title item] else [])
     @ (if search_tags then entry_tags item else [])
     @ (if search_content then [entry_content item] else [])"

definition combined_text :: "bool \<Rightarrow> bool \<Rightarrow> bool \<Rightarrow> entry \<Rightarrow> string" where
  "combined_text search_title search_tags search_content item =
     str_join '' '' (text_to_search search_title search_tags search_content item)"

text \<open>The outer loop of \<^verbatim>\<open>search\<close>; \<open>results\<close> and \<open>seen\<close> are the two accumulators
  \<^verbatim>\<open>results\<close> and \<^verbatim>\<open>seen_filepaths\<close>.\<close>

fun search_loop ::
  "string list \<Rightarrow> bool \<Rightarrow> bool \<Rightarrow> bool \<Rightarrow> Note list \<Rightarrow> string set \<Rightarrow> entry list \<Rightarrow> Note list" where
  "search_loop terms st sg sc results seen [] = results"
| "search_loop terms st sg sc results seen (item # items) =
     (if all_terms_match terms (combined_text st sg sc item)
      then (if entry_id item \<notin> seen
            then search_loop terms st sg sc (results @ [original_note item])
                   (insert (entry_id item) seen) items
            else search_loop terms st sg sc results seen items)
      else search_loop terms st sg sc results seen items)"

definition search :: "entry list \<Rightarrow> string \<Rightarrow> bool \<Rightarrow> bool \<Rightarrow> bool \<Rightarrow> Note list" where
  "search notes_data query search_title search_tags search_content =
     (if str_strip query = [] then map original_note notes_data
      else search_loop (str_split (str_lower query)) search_title search_tags search_content
             [] {} notes_data)"

text \<open>
  \<^verbatim>\<open>get_all_tags\<close>.  The Python \<^verbatim>\<open>set\<close> is the list of its members, each once, in the order
  they were added.  A member must be hashable, which lists and dicts are not.
\<close>

fun hashable :: "pyval \<Rightarrow> bool" where
  "hashable (PList xs) = False"
| "hashable (PDict kvs) = False"
| "hashable v = True"

text \<open>The inner loop \<^verbatim>\<open>for tag in item['original_note'].tags: all_tags.add(tag)\<close> over the
  items of the iteration.\<close>

fun add_tags :: "pyval list \<Rightarrow> pyval list \<Rightarrow> py_error + pyval list" where
  "add_tags all_tags [] = Inr all_tags"
| "add_tags all_tags (t # ts) =
     (if \<not> hashable t then Inl TypeError
      else add_tags (if t \<in> set all_tags then all_tags else all_tags @ [t]) ts)"

fun collect_tags :: "pyval list \<Rightarrow> entry list \<Rightarrow> py_error + pyval list" where
  "collect_tags all_tags [] = Inr all_tags"
| "collect_tags all_tags (item # items) =
     (case py_iter (tags (original_note item)) of
        Inl e \<Rightarrow> Inl e
      | Inr ts \<Rightarrow>
         (case add_tags all_tags ts of
            Inl e \<Rightarrow> Inl e
          | Inr all_tags' \<Rightarrow> collect_tags all_tags' items))"

fun is_str :: "pyval \<Rightarrow> bool" where
  "is_str (PStr s) = True"
| "is_str v = False"

fun str_of :: "pyval \<Rightarrow> string" where
  "str_of (PStr s) = s"
| "str_of v = []"

text \<open>
  \<^verbatim>\<open>sorted(list(all_tags))\<close>.  Strings compare by code point, which is the order of
  \<^typ>\<open>string\<close> here.  A list of at most one value is returned as it is; comparing a string
  with a value that is not a string raises \<^verbatim>\<open>TypeError\<close>; the order of two or more values
  none of which is a string is not described.
\<close>

definition py_sorted :: "pyval list \<Rightarrow> py_error + pyval list" where
  "py_sorted vs =
     (if length vs \<le> 1 then Inr vs
      else if list_all is_str vs then Inr (map PStr (sort (map str_of vs)))
      else if list_ex is_str vs then Inl TypeError
      else Inl Unmodelled)"

definition get_all_tags :: "entry list \<Rightarrow> py_error + pyval list" where
  "get_all_tags notes_data =
     (case collect_tags [] notes_data of Inl e \<Rightarrow> Inl e | Inr all_tags \<Rightarrow> py_sorted all_tags)"

subsection \<open>The notes of the examples\<close>

text \<open>The text that \<^verbatim>\<open>search\<close> matches the terms against, for a note as \<^verbatim>\<open>build_index\<close>
  indexes it (empty for a note that \<^verbatim>\<open>build_index\<close> rejects).\<close>

definition indexed_text :: "bool \<Rightarrow> bool \<Rightarrow> bool \<Rightarrow> Note \<Rightarrow> string" where
  "indexed_text search_title search_tags search_content n =
     (case make_entry n of
        Inl e \<Rightarrow> []
      | Inr item \<Rightarrow> combined_text search_title search_tags search_content item)"

definition plain_note :: "string \<Rightarrow> string \<Rightarrow> string list \<Rightarrow> string \<Rightarrow> Note" where
  "plain_note path t ts c =
     \<lparr>filepath = path, title = PStr t, tags = PList (map PStr ts),
      created = PStr ''2024-07-15T08:30:00+00:00'', updated = PStr ''2024-07-15T08:30:00+00:00'',
      content = c\<rparr>"

definition note_web :: Note where
  "note_web = plain_note ''/test/note2.md'' ''Python Web Development'' [''python'', ''web''] ''''"

definition note_ideas :: Note where
  "note_ideas = plain_note ''/test/note4.md'' ''Project Ideas: Python'' [''python'', ''ideas''] ''''"

definition note_plan_a :: Note where
  "note_plan_a = plain_note ''/test/plan.md'' ''Plan A'' [] ''''"

definition note_plan_b :: Note where
  "note_plan_b = plain_note ''/test/plan.md'' ''Plan B'' [] ''''"

definition note_hobby_upper :: Note where
  "note_hobby_upper = plain_note ''/test/a.md'' ''Chess'' [''Hobby''] ''''"

definition note_hobby_lower :: Note where
  "note_hobby_lower = plain_note ''/test/b.md'' ''Go'' [''hobby''] ''''"

text \<open>\<^verbatim>\<open>notes_data\<close> after \<^verbatim>\<open>build_index(ns)\<close> has returned (empty when it raised).\<close>

definition index_of :: "Note list \<Rightarrow> entry list" where
  "index_of ns = (case build_index ns of Inl e \<Rightarrow> [] | Inr notes_data \<Rightarrow> notes_data)"

text \<open>The tags of an indexed note that are strings, when its tags are a list.\<close>

definition tag_strings :: "entry \<Rightarrow> string list" where
  "tag_strings item =
     (case tags (original_note item) of PList vs \<Rightarrow> map str_of (filter is_str vs) | _ \<Rightarrow> [])"

section \<open>Paths and the file system\<close>

text \<open>
  \<^verbatim>\<open>os.path\<close> on a POSIX system (\<^verbatim>\<open>posixpath\<close>).  \<open>path_cut\<close> cuts a path after its last
  slash, as \<^verbatim>\<open>i = p.rfind('/') + 1; head, tail = p[:i], p[i:]\<close> does.
\<close>

definition slash :: char where
  "slash = CHR ''/''"

definition path_cut :: "string \<Rightarrow> string \<times> string" where
  "path_cut p =
     (rev (dropWhile (\<lambda>c. c \<noteq> slash) (rev p)), rev (takeWhile (\<lambda>c. c \<noteq> slash) (rev p)))"

definition path_basename :: "string \<Rightarrow> string" where
  "path_basename p = snd (path_cut p)"

definition path_dirname :: "string \<Rightarrow> string" where
  "path_dirname p =
     (let head = fst (path_cut p)
      in if head \<noteq> [] \<and> head \<noteq> replicate (length head) slash
         then rev (dropWhile (\<lambda>c. c = slash) (rev head)) else head)"

definition path_join :: "string \<Rightarrow> string \<Rightarrow> string" where
  "path_join a b =
     (if startswith b [slash] then b
      else if a = [] \<or> endswith a [slash] then a @ b
      else a @ [slash] @ b)"

text \<open>\<^verbatim>\<open>os.path.splitext\<close>: the extension starts at the last dot of the last component,
  unless only dots come before it there.\<close>

definition path_splitext :: "string \<Rightarrow> string \<times> string" where
  "path_splitext p =
     (let head = fst (path_cut p); name = snd (path_cut p)
      in if CHR ''.'' \<notin> set name then (p, [])
         else
           (let ext = rev (takeWhile (\<lambda>c. c \<noteq> CHR ''.'') (rev name));
                stem = rev (tl (dropWhile (\<lambda>c. c \<noteq> CHR ''.'') (rev name)))
            in if list_ex (\<lambda>c. c \<noteq> CHR ''.'') stem then (head @ stem, CHR ''.'' # ext)
               else (p, [])))"

text \<open>
  The file system is the list of its entries, each under the path string that names it (the
  model does not resolve \<^verbatim>\<open>.\<close>, \<^verbatim>\<open>..\<close>, repeated slashes or links: a path denotes the entry
  stored under that very string; the root \<^verbatim>\<open>/\<close> always exists).  A regular file either holds
  text, stored as written, or bytes that are not valid UTF-8.  \<open>locked\<close> lists the directories
  in which the process may not create or remove entries.
\<close>

datatype node = Directory | TextFile string | BinaryFile

record fs =
  entries :: "(string \<times> node) list"
  locked :: "string list"

definition os_path_exists :: "fs \<Rightarrow> string \<Rightarrow> bool" where
  "os_path_exists f p = (p = [slash] \<or> map_of (entries f) p \<noteq> None)"

definition os_path_isdir :: "fs \<Rightarrow> string \<Rightarrow> bool" where
  "os_path_isdir f p = (p = [slash] \<or> map_of (entries f) p = Some Directory)"

text \<open>Reading a file opened in text mode translates \<^verbatim>\<open>\r\n\<close> and \<^verbatim>\<open>\r\<close> to \<^verbatim>\<open>\n\<close>
  (universal newlines, the default of \<^verbatim>\<open>open\<close>).\<close>

fun universal_newlines :: "string \<Rightarrow> string" where
  "universal_newlines [] = []"
| "universal_newlines [c] = [if c = cr then nl else c]"
| "universal_newlines (c # d # s) =
     (if c = cr \<and> d = nl then nl # universal_newlines s
      else if c = cr then nl # universal_newlines (d # s)
      else c # universal_newlines (d # s))"

text \<open>\<^verbatim>\<open>with open(p, 'r', encoding='utf-8') as f: f.read()\<close>\<close>

definition read_text :: "fs \<Rightarrow> string \<Rightarrow> py_error + string" where
  "read_text f p =
     (case map_of (entries f) p of
        None \<Rightarrow> Inl FileNotFoundError
      | Some Directory \<Rightarrow> Inl IsADirectoryError
      | Some BinaryFile \<Rightarrow> Inl UnicodeDecodeError
      | Some (TextFile t) \<Rightarrow> Inr (universal_newlines t))"

text \<open>The directory that must hold a new entry \<open>p\<close>: the empty \<^verbatim>\<open>dirname\<close> is the current
  directory, which exists.\<close>

definition parent_error :: "fs \<Rightarrow> string \<Rightarrow> py_error option" where
  "parent_error f p =
     (let d = path_dirname p
      in if d = [] \<or> d = [slash] then None
         else (case map_of (entries f) d of
                 None \<Rightarrow> Some FileNotFoundError
               | Some Directory \<Rightarrow> None
               | Some other \<Rightarrow> Some NotADirectoryError))"

definition put_entry :: "(string \<times> node) list \<Rightarrow> string \<Rightarrow> node \<Rightarrow> (string \<times> node) list" where
  "put_entry es p n =
     (if map_of es p = None then es @ [(p, n)]
      else map (\<lambda>(q, m). if q = p then (q, n) else (q, m)) es)"

text \<open>\<^verbatim>\<open>with open(p, 'w', encoding='utf-8') as f: f.write(t)\<close>\<close>

definition write_text :: "fs \<Rightarrow> string \<Rightarrow> string \<Rightarrow> py_error + fs" where
  "write_text f p t =
     (if p = [] then Inl FileNotFoundError
      else if os_path_isdir f p then Inl IsADirectoryError
      else (case parent_error f p of
              Some e \<Rightarrow> Inl e
            | None \<Rightarrow>
               if map_of (entries f) p = None \<and> path_dirname p \<in> set (locked f)
               then Inl PermissionError
               else Inr (f\<lparr>entries := put_entry (entries f) p (TextFile t)\<rparr>)))"

text \<open>\<^verbatim>\<open>os.remove(p)\<close>\<close>

definition os_remove :: "fs \<Rightarrow> string \<Rightarrow> py_error + fs" where
  "os_remove f p =
     (case map_of (entries f) p of
        None \<Rightarrow> Inl FileNotFoundError
      | Some Directory \<Rightarrow> Inl IsADirectoryError
      | Some file \<Rightarrow>
         if path_dirname p \<in> set (locked f) then Inl PermissionError
         else Inr (f\<lparr>entries := filter (\<lambda>(q, m). q \<noteq> p) (entries f)\<rparr>))"

text \<open>\<^verbatim>\<open>os.mkdir(p)\<close>\<close>

definition os_mkdir :: "fs \<Rightarrow> string \<Rightarrow> py_error + fs" where
  "os_mkdir f p =
     (if p = [] then Inl FileNotFoundError
      else if os_path_exists f p then Inl FileExistsError
      else (case parent_error f p of
              Some e \<Rightarrow> Inl e
            | None \<Rightarrow>
               if path_dirname p \<in> set (locked f) then Inl PermissionError
               else Inr (f\<lparr>entries := entries f @ [(p, Directory)]\<rparr>)))"

text \<open>\<^verbatim>\<open>posixpath.split\<close>\<close>

definition path_split :: "string \<Rightarrow> string \<times> string" where
  "path_split p = (path_dirname p, path_basename p)"

text \<open>
  \<^verbatim>\<open>os.makedirs(name, exist_ok=True)\<close>.  \<open>makedirs_parts\<close> is the pair \<^verbatim>\<open>head, tail\<close> after
  the second split that a name ending in a slash gets; \<open>mkdir_exist_ok\<close> is the final
  \<^verbatim>\<open>mkdir\<close> whose \<^verbatim>\<open>OSError\<close> is dropped when the name is a directory.  Both return the file
  system as the call leaves it together with the exception raised, if any.
\<close>

definition makedirs_parts :: "string \<Rightarrow> string \<times> string" where
  "makedirs_parts name =
     (if snd (path_split name) = [] then path_split (fst (path_split name)) else path_split name)"

definition mkdir_exist_ok :: "fs \<Rightarrow> string \<Rightarrow> fs \<times> py_error option" where
  "mkdir_exist_ok f name =
     (case os_mkdir f name of
        Inr f' \<Rightarrow> (f', None)
      | Inl e \<Rightarrow> if os_path_isdir f name then (f, None) else (f, Some e))"

lemma path_cut_append: "fst (path_cut p) @ snd (path_cut p) = p"
proof -
  have "rev (takeWhile (\<lambda>c. c \<noteq> slash) (rev p) @ dropWhile (\<lambda>c. c \<noteq> slash) (rev p)) = p"
    by simp
  then show ?thesis unfolding path_cut_def by (simp only: rev_append fst_conv snd_conv)
qed

lemma path_dirname_le: "length (path_dirname p) \<le> length (fst (path_cut p))"
proof -
  have "length (dropWhile (\<lambda>c. c = slash) (rev (fst (path_cut p)))) \<le> length (fst (path_cut p))"
    using length_dropWhile_le [of "\<lambda>c. c = slash" "rev (fst (path_cut p))"] by simp
  then show ?thesis by (simp add: path_dirname_def Let_def)
qed

lemma makedirs_parts_shorter:
  assumes "snd (makedirs_parts name) \<noteq> []"
  shows "length (fst (makedirs_parts name)) < length name"
proof -
  have shorter: "length (path_dirname q) < length q" if "path_basename q \<noteq> []" for q
  proof -
    have "length (fst (path_cut q)) + length (snd (path_cut q)) = length q"
      using arg_cong [OF path_cut_append [of q], of length] by simp
    moreover have "length (snd (path_cut q)) > 0" using that by (simp add: path_basename_def)
    ultimately show ?thesis using path_dirname_le [of q] by linarith
  qed
  have le: "length (path_dirname q) \<le> length q" for q
  proof -
    have "length (fst (path_cut q)) + length (snd (path_cut q)) = length q"
      using arg_cong [OF path_cut_append [of q], of length] by simp
    then show ?thesis using path_dirname_le [of q] by linarith
  qed
  show ?thesis
  proof (cases "path_basename name = []")
    case True
    then have parts: "makedirs_parts name = path_split (path_dirname name)"
      by (simp add: makedirs_parts_def path_split_def)
    then have "path_basename (path_dirname name) \<noteq> []"
      using assms by (simp add: path_split_def)
    then have "length (path_dirname (path_dirname name)) < length (path_dirname name)"
      by (rule shorter)
    then show ?thesis using parts le [of name] by (simp add: path_split_def)
  next
    case False
    then have parts: "makedirs_parts name = path_split name"
      by (simp add: makedirs_parts_def path_split_def)
    show ?thesis using parts shorter [OF False] by (simp add: path_split_def)
  qed
qed

function makedirs :: "fs \<Rightarrow> string \<Rightarrow> fs \<times> py_error option" where
  "makedirs f name =
     (if fst (makedirs_parts name) \<noteq> [] \<and> snd (makedirs_parts name) \<noteq> []
         \<and> \<not> os_path_exists f (fst (makedirs_parts name))
      then (case makedirs f (fst (makedirs_parts name)) of
              (f1, r) \<Rightarrow>
                if r \<noteq> None \<and> r \<noteq> Some FileExistsError then (f1, r)
                else if snd (makedirs_parts name) = ''.'' then (f1, None)
                else mkdir_exist_ok f1 name)
      else mkdir_exist_ok f name)"
  by pat_completeness auto
termination
  by (relation "measure (\<lambda>(f, name). length name)") (auto simp: makedirs_parts_shorter)

declare makedirs.simps [simp del]

subsection \<open>\<^verbatim>\<open>fnmatch\<close> and \<^verbatim>\<open>glob\<close>\<close>

text \<open>
  \<^verbatim>\<open>glob.glob\<close> and \<^verbatim>\<open>fnmatch\<close> of the standard library (Python 3.11, POSIX, where names
  compare case-sensitively).  A pattern is read into tokens as \<^verbatim>\<open>fnmatch.translate\<close> reads it:
  \<^verbatim>\<open>*\<close>, \<^verbatim>\<open>?\<close>, a character set \<^verbatim>\<open>[...]\<close> (negated by a leading \<^verbatim>\<open>!\<close>) and literal
  characters.  A set is a list of ranges of character codes, a single character being the
  range from itself to itself.
\<close>

definition has_magic :: "string \<Rightarrow> bool" where
  "has_magic s = list_ex (\<lambda>c. c \<in> set ''*?['') s"

datatype glob_tok = GStar | GAny | GLit char | GSet bool "(char \<times> char) list"

text \<open>
  \<open>bracket rest\<close> looks for the end of a set in the text after \<^verbatim>\<open>[\<close>: a \<^verbatim>\<open>]\<close> that comes
  first, or first after \<^verbatim>\<open>!\<close>, belongs to the set.  The result is the text of the set and what
  follows its closing \<^verbatim>\<open>]\<close>; without a closing \<^verbatim>\<open>]\<close> the \<^verbatim>\<open>[\<close> is a literal character.
\<close>

definition bracket :: "string \<Rightarrow> (string \<times> string) option" where
  "bracket rest =
     (let p1 = (if startswith rest ''!'' then ''!'' else []);
          r1 = drop (length p1) rest;
          p2 = (if startswith r1 '']'' then '']'' else []);
          r2 = drop (length p2) r1;
          body = takeWhile (\<lambda>c. c \<noteq> CHR '']'') r2;
          r3 = dropWhile (\<lambda>c. c \<noteq> CHR '']'') r2
      in if r3 = [] then None else Some (p1 @ p2 @ body, tl r3))"

text \<open>
  The text of a set that holds a hyphen is cut into chunks at the hyphens that make ranges:
  the search for the next hyphen skips \<open>skip\<close> characters (one at the start, two after a
  leading \<^verbatim>\<open>!\<close>, and two after each range hyphen).  \<open>cur\<close> is the chunk read so far; the last
  chunk of the result is what follows the last range hyphen.
\<close>

fun split_chunks :: "string \<Rightarrow> nat \<Rightarrow> string \<Rightarrow> string list" where
  "split_chunks cur skip [] = [cur]"
| "split_chunks cur skip (c # rest) =
     (if skip > 0 then split_chunks (cur @ [c]) (skip - 1) rest
      else if c = CHR ''-'' then cur # split_chunks [] 2 rest
      else split_chunks (cur @ [c]) 0 rest)"

text \<open>
  The loop that removes empty ranges, from the last chunk to the first: a range whose start
  is above its end is dropped with both its ends, and the two chunks are joined.  The chunks
  read here with \<open>hd\<close> and \<open>last\<close> are never empty: the first chunk holds the characters
  skipped at the start, a chunk between two range hyphens holds at least two characters, and
  an empty last chunk has been replaced by a hyphen added to the chunk before it.
\<close>

fun fix_ranges :: "string list \<Rightarrow> string list" where
  "fix_ranges [] = []"
| "fix_ranges [c] = [c]"
| "fix_ranges (c # c' # cs) =
     (case fix_ranges (c' # cs) of
        [] \<Rightarrow> [c]
      | d # ds \<Rightarrow> if last c > hd d then (butlast c @ tl d) # ds else c # d # ds)"

text \<open>The ranges of the chunks joined by range hyphens: the last character of a chunk and the
  first of the next are the ends of a range, every other character stands for itself.\<close>

function range_items :: "string list \<Rightarrow> (char \<times> char) list" where
  "range_items [] = []"
| "range_items [ch] = map (\<lambda>c. (c, c)) ch"
| "range_items (ch # d # rest) =
     map (\<lambda>c. (c, c)) (butlast ch) @ [(last ch, hd d)] @ range_items (tl d # rest)"
  by pat_completeness auto
termination
  by (relation "measure length") auto

definition charset :: "string \<Rightarrow> glob_tok" where
  "charset stuff =
     (if CHR ''-'' \<notin> set stuff
      then (if startswith stuff ''!'' then GSet True (map (\<lambda>c. (c, c)) (tl stuff))
            else GSet False (map (\<lambda>c. (c, c)) stuff))
      else
        (let cs = split_chunks [] (if startswith stuff ''!'' then 2 else 1) stuff;
             chunks = fix_ranges (if last cs \<noteq> [] then cs
                                  else butlast (butlast cs) @ [last (butlast cs) @ ''-''])
         in if startswith (hd chunks) ''!''
            then GSet True (range_items (tl (hd chunks) # tl chunks))
            else GSet False (range_items chunks)))"

text \<open>The tokens of a pattern; \<open>skip\<close> counts the characters of a set still to pass.\<close>

fun tokens_aux :: "nat \<Rightarrow> string \<Rightarrow> glob_tok list" where
  "tokens_aux skip [] = []"
| "tokens_aux skip (c # rest) =
     (if skip > 0 then tokens_aux (skip - 1) rest
      else if c = CHR ''*'' then GStar # tokens_aux 0 rest
      else if c = CHR ''?'' then GAny # tokens_aux 0 rest
      else if c = CHR ''[''
      then (case bracket rest of
              None \<Rightarrow> GLit c # tokens_aux 0 rest
            | Some (stuff, after) \<Rightarrow> charset stuff # tokens_aux (length stuff + 1) rest)
      else GLit c # tokens_aux 0 rest)"

fun tok_match :: "glob_tok \<Rightarrow> char \<Rightarrow> bool" where
  "tok_match GStar c = False"
| "tok_match GAny c = True"
| "tok_match (GLit l) c = (c = l)"
| "tok_match (GSet negated items) c = (list_ex (\<lambda>(lo, hi). lo \<le> c \<and> c \<le> hi) items \<noteq> negated)"

fun gmatch :: "glob_tok list \<Rightarrow> string \<Rightarrow> bool" where
  "gmatch [] s = (s = [])"
| "gmatch (GStar # ts) [] = gmatch ts []"
| "gmatch (GStar # ts) (c # s) = (gmatch ts (c # s) \<or> gmatch (GStar # ts) s)"
| "gmatch (t # ts) [] = False"
| "gmatch (t # ts) (c # s) = (tok_match t c \<and> gmatch ts s)"

text \<open>\<^verbatim>\<open>fnmatch.fnmatchcase(name, pattern)\<close>: the whole name matches the pattern.\<close>

definition fnmatch :: "string \<Rightarrow> string \<Rightarrow> bool" where
  "fnmatch name pattern = gmatch (tokens_aux 0 pattern) name"

text \<open>
  The names of the entries directly inside a directory (\<^verbatim>\<open>os.scandir\<close>), in the order of the
  listing; with \<open>dironly\<close> the directories only.  The empty name is the current directory;
  listing anything that is not a directory gives nothing.
\<close>

definition listdir :: "fs \<Rightarrow> string \<Rightarrow> bool \<Rightarrow> string list" where
  "listdir f d dironly =
     (if d = [] \<or> os_path_isdir f d
      then map path_basename
             (filter (\<lambda>p. path_basename p \<noteq> [] \<and> path_join d (path_basename p) = p
                          \<and> (if dironly then os_path_isdir f p else True))
                (map fst (entries f)))
      else [])"

text \<open>\<^verbatim>\<open>glob._join\<close>, \<^verbatim>\<open>glob._glob1\<close> (a pattern with wildcards: hidden names are left out
  unless the pattern begins with a dot) and \<^verbatim>\<open>glob._glob0\<close> (a name without wildcards).\<close>

definition glob_join :: "string \<Rightarrow> string \<Rightarrow> string" where
  "glob_join a b = (if a = [] \<or> b = [] then (if a \<noteq> [] then a else b) else path_join a b)"

definition glob1 :: "fs \<Rightarrow> string \<Rightarrow> string \<Rightarrow> bool \<Rightarrow> string list" where
  "glob1 f dirname pattern dironly =
     filter (\<lambda>name. fnmatch name pattern)
       (filter (\<lambda>name. startswith pattern ''.'' \<or> \<not> startswith name ''.'')
          (listdir f dirname dironly))"

definition glob0 :: "fs \<Rightarrow> string \<Rightarrow> string \<Rightarrow> string list" where
  "glob0 f dirname basename =
     (if basename = [] then (if os_path_isdir f dirname then [basename] else [])
      else if os_path_exists f (glob_join dirname basename) then [basename] else [])"

lemma path_dirname_shorter:
  assumes "path_dirname p \<noteq> p"
  shows "length (path_dirname p) < length p"
proof -
  let ?h = "fst (path_cut p)"
  have p: "?h @ snd (path_cut p) = p" by (rule path_cut_append)
  have "\<exists>r. ?h = path_dirname p @ r"
  proof (cases "?h \<noteq> [] \<and> ?h \<noteq> replicate (length ?h) slash")
    case True
    then have "path_dirname p = rev (dropWhile (\<lambda>c. c = slash) (rev ?h))"
      by (simp add: path_dirname_def Let_def)
    moreover have "rev (takeWhile (\<lambda>c. c = slash) (rev ?h) @ dropWhile (\<lambda>c. c = slash) (rev ?h)) = ?h"
      by simp
    ultimately have "?h = path_dirname p @ rev (takeWhile (\<lambda>c. c = slash) (rev ?h))"
      by (simp only: rev_append)
    then show ?thesis by blast
  next
    case False
    then have "path_dirname p = ?h" by (auto simp: path_dirname_def Let_def)
    then show ?thesis by simp
  qed
  then obtain r where "?h = path_dirname p @ r" by blast
  then have "p = path_dirname p @ (r @ snd (path_cut p))" using p by (metis append_assoc)
  then obtain t where t: "p = path_dirname p @ t" by blast
  then have "t \<noteq> []" using assms by auto
  moreover have "length p = length (path_dirname p) + length t"
    using arg_cong [OF t, of length] by simp
  ultimately show ?thesis by simp
qed

text \<open>
  \<^verbatim>\<open>glob._iglob\<close> without the recursive \<^verbatim>\<open>**\<close>: a directory part that has wildcards is itself
  expanded, into directories only; then the last part is matched in each directory.
\<close>

function glob_rec :: "fs \<Rightarrow> bool \<Rightarrow> string \<Rightarrow> string list" where
  "glob_rec f dironly pathname =
     (if \<not> has_magic pathname
      then (if path_basename pathname \<noteq> []
            then (if os_path_exists f pathname then [pathname] else [])
            else (if os_path_isdir f (path_dirname pathname) then [pathname] else []))
      else if path_dirname pathname = []
      then glob1 f [] (path_basename pathname) dironly
      else concat
             (map (\<lambda>d. map (path_join d)
                          (if has_magic (path_basename pathname)
                           then glob1 f d (path_basename pathname) dironly
                           else glob0 f d (path_basename pathname)))
                (if path_dirname pathname \<noteq> pathname \<and> has_magic (path_dirname pathname)
                 then glob_rec f True (path_dirname pathname)
                 else [path_dirname pathname])))"
  by pat_completeness auto
termination
  by (relation "measure (\<lambda>(f, dironly, pathname). length pathname)")
     (auto simp: path_dirname_shorter)

declare glob_rec.simps [simp del]

text \<open>\<^verbatim>\<open>glob.glob(pathname)\<close> for a name that is not empty.\<close>

definition glob_glob :: "fs \<Rightarrow> string \<Rightarrow> string list" where
  "glob_glob f pathname = glob_rec f False pathname"

text \<open>\<^verbatim>\<open>str(n)\<close> for a natural number.\<close>

function str_of_nat :: "nat \<Rightarrow> string" where
  "str_of_nat n =
     (if n < 10 then [char_of (48 + n)] else str_of_nat (n div 10) @ [char_of (48 + n mod 10)])"
  by pat_completeness auto
termination
  by (relation "measure id") auto

declare str_of_nat.simps [simp del]

section \<open>The front-matter codec (\<^verbatim>\<open>utils.py\<close>)\<close>

text \<open>
  PyYAML is a library outside the repository.  The codec takes it as a parameter: \<open>safe_load\<close>
  is \<^verbatim>\<open>yaml.safe_load\<close>, and \<open>dump\<close> is \<^verbatim>\<open>yaml.dump\<close> with the keyword arguments of
  \<^verbatim>\<open>generate_yaml_front_matter\<close> (\<^verbatim>\<open>sort_keys=False, allow_unicode=True,
  default_flow_style=False\<close>).  Either returns its value or raises.
\<close>

record yaml_lib =
  safe_load :: "string \<Rightarrow> py_error + pyval"
  dump :: "(pyval \<times> pyval) list \<Rightarrow> py_error + string"

text \<open>A \<^verbatim>\<open>dict\<close>: \<^verbatim>\<open>d.get(k, default)\<close>, \<^verbatim>\<open>k in d\<close> and \<^verbatim>\<open>d[k] = v\<close>.\<close>

definition dict_get :: "(pyval \<times> pyval) list \<Rightarrow> pyval \<Rightarrow> pyval \<Rightarrow> pyval" where
  "dict_get d k dflt = (case map_of d k of None \<Rightarrow> dflt | Some v \<Rightarrow> v)"

definition dict_has :: "(pyval \<times> pyval) list \<Rightarrow> pyval \<Rightarrow> bool" where
  "dict_has d k = (map_of d k \<noteq> None)"

definition dict_set :: "(pyval \<times> pyval) list \<Rightarrow> pyval \<Rightarrow> pyval \<Rightarrow> (pyval \<times> pyval) list" where
  "dict_set d k v =
     (if dict_has d k then map (\<lambda>(k', v'). if k' = k then (k', v) else (k', v')) d
      else d @ [(k, v)])"

subsection \<open>The regular expression\<close>

text \<open>
  \<^verbatim>\<open>YAML_FRONT_MATTER_REGEX = re.compile(r'^---\s*\n(.*?\n)^---\s*\n', re.DOTALL | re.MULTILINE)\<close>,
  applied with \<^verbatim>\<open>match\<close>, that is at the start of the text.

  \<open>ws_nl s\<close> lists what can remain of \<open>s\<close> after \<^verbatim>\<open>\s*\n\<close> has matched at its start, in the
  order in which the backtracking matcher tries the alternatives: \<^verbatim>\<open>\s*\<close> is greedy, so the
  longest match comes first.
\<close>

fun ws_nl :: "string \<Rightarrow> string list" where
  "ws_nl [] = []"
| "ws_nl (c # s) = (if str_isspace c then ws_nl s @ (if c = nl then [s] else []) else [])"

text \<open>\<^verbatim>\<open>^---\s*\n\<close> at a line start, with nothing to match after it: the first alternative of
  \<^verbatim>\<open>\s*\n\<close> is taken.  The result is the text after the match.\<close>

definition close_at :: "string \<Rightarrow> string option" where
  "close_at s =
     (if startswith s ''---''
      then (case ws_nl (drop 3 s) of [] \<Rightarrow> None | r # rs \<Rightarrow> Some r)
      else None)"

text \<open>
  \<^verbatim>\<open>(.*?\n)^---\s*\n\<close>: the group is lazy, so it ends at the first line break after which the
  closing delimiter matches (with \<^verbatim>\<open>DOTALL\<close> the dot matches every character, and with
  \<^verbatim>\<open>MULTILINE\<close> the anchor \<^verbatim>\<open>^\<close> holds after every line break).  \<open>g\<close> is the group so far;
  the result is the group and the text after the whole match.
\<close>

fun lazy_group :: "string \<Rightarrow> string \<Rightarrow> (string \<times> string) option" where
  "lazy_group g [] = None"
| "lazy_group g (c # s) =
     (if c = nl
      then (case close_at s of
              Some r \<Rightarrow> Some (g @ [c], r)
            | None \<Rightarrow> lazy_group (g @ [c]) s)
      else lazy_group (g @ [c]) s)"

fun first_some :: "'a option list \<Rightarrow> 'a option" where
  "first_some [] = None"
| "first_some (None # xs) = first_some xs"
| "first_some (Some x # xs) = Some x"

text \<open>\<^verbatim>\<open>YAML_FRONT_MATTER_REGEX.match(text)\<close>: \<^verbatim>\<open>None\<close>, or \<^verbatim>\<open>match.group(1)\<close> together with
  \<^verbatim>\<open>text[match.end():]\<close>.\<close>

definition fm_match :: "string \<Rightarrow> (string \<times> string) option" where
  "fm_match text =
     (if startswith text ''---'' then first_some (map (lazy_group []) (ws_nl (drop 3 text)))
      else None)"

subsection \<open>Parsing and generating\<close>

fun is_dict :: "pyval \<Rightarrow> bool" where
  "is_dict (PDict d) = True"
| "is_dict v = False"

fun is_datetime :: "pyval \<Rightarrow> bool" where
  "is_datetime (PDatetime s) = True"
| "is_datetime v = False"

text \<open>\<^verbatim>\<open>parse_yaml_front_matter\<close>: only \<^verbatim>\<open>yaml.YAMLError\<close> is caught.\<close>

definition parse_yaml_front_matter ::
  "yaml_lib \<Rightarrow> string \<Rightarrow> py_error + ((pyval \<times> pyval) list \<times> string)" where
  "parse_yaml_front_matter lib file_content =
     (case fm_match file_content of
        None \<Rightarrow> Inr ([], file_content)
      | Some (metadata_str, content_after_front_matter) \<Rightarrow>
         (case safe_load lib metadata_str of
            Inl e \<Rightarrow> if e = YAMLError then Inr ([], file_content) else Inl e
          | Inr (PDict metadata) \<Rightarrow> Inr (metadata, content_after_front_matter)
          | Inr other \<Rightarrow> Inr ([], content_after_front_matter)))"

text \<open>The loop of \<^verbatim>\<open>generate_yaml_front_matter\<close> that replaces a \<^verbatim>\<open>datetime\<close> under
  \<^verbatim>\<open>created\<close> or \<^verbatim>\<open>updated\<close> by its ISO text, in the dict it was given.\<close>

definition iso_entry :: "(pyval \<times> pyval) list \<Rightarrow> string \<Rightarrow> (pyval \<times> pyval) list" where
  "iso_entry metadata key =
     (case map_of metadata (PStr key) of
        Some (PDatetime isotext) \<Rightarrow> dict_set metadata (PStr key) (PStr isotext)
      | _ \<Rightarrow> metadata)"

text \<open>\<^verbatim>\<open>generate_yaml_front_matter\<close> returns the dict as the call leaves it and the text, or
  the exception that \<^verbatim>\<open>yaml.dump\<close> raised when that is not a \<^verbatim>\<open>yaml.YAMLError\<close>.\<close>

definition generate_yaml_front_matter ::
  "yaml_lib \<Rightarrow> (pyval \<times> pyval) list \<Rightarrow> (pyval \<times> pyval) list \<times> (py_error + string)" where
  "generate_yaml_front_matter lib metadata0 =
     (let metadata = iso_entry (iso_entry metadata0 ''created'') ''updated''
      in if metadata = [] then (metadata, Inr [])
         else (case dump lib metadata of
                 Inr yaml_str \<Rightarrow> (metadata, Inr (''---'' @ [nl] @ yaml_str @ ''---'' @ [nl]))
               | Inl e \<Rightarrow>
                  if e = YAMLError
                  then (metadata, Inr (''---'' @ [nl] @ ''# Error generating YAML'' @ [nl] @ ''---'' @ [nl]))
                  else (metadata, Inl e)))"

text \<open>
  What the round trip needs of the text \<open>y\<close> that \<^verbatim>\<open>yaml.dump\<close> writes for a mapping in block
  style: it is not empty, ends in a line break, begins with a character that is not
  whitespace, holds no carriage return, and none of its lines after the first begins with
  \<^verbatim>\<open>---\<close> (a line of such a dump begins with a key, with \<^verbatim>\<open>- \<close> or with indentation).
\<close>

definition clean_block :: "string \<Rightarrow> bool" where
  "clean_block y =
     (y \<noteq> [] \<and> last y = nl \<and> \<not> str_isspace (hd y) \<and> cr \<notin> set y \<and> \<not> py_in (nl # ''---'') y)"

section \<open>The note store (\<^verbatim>\<open>file_manager.py\<close>)\<close>

text \<open>\<^verbatim>\<open>Note.__init__\<close>: \<^verbatim>\<open>self.tags = tags if tags is not None else []\<close>; the other
  fields are stored as given.\<close>

definition make_note :: "string \<Rightarrow> pyval \<Rightarrow> pyval \<Rightarrow> pyval \<Rightarrow> pyval \<Rightarrow> string \<Rightarrow> Note" where
  "make_note path t g c u body =
     \<lparr>filepath = path, title = t, tags = (if g = PNone then PList [] else g), created = c,
      updated = u, content = body\<rparr>"

text \<open>
  \<^verbatim>\<open>load_note\<close>.  \<open>now\<close> is what \<^verbatim>\<open>get_current_timestamp()\<close> returns during the call.  Every
  exception is caught and turned into \<^verbatim>\<open>None\<close>; the note is built by the constructor.
\<close>

definition load_note :: "yaml_lib \<Rightarrow> fs \<Rightarrow> string \<Rightarrow> string \<Rightarrow> Note option" where
  "load_note lib f now path =
     (case read_text f path of
        Inl e \<Rightarrow> None
      | Inr full_content \<Rightarrow>
         (case parse_yaml_front_matter lib full_content of
            Inl e \<Rightarrow> None
          | Inr (metadata, body) \<Rightarrow>
             (let t = dict_get metadata (PStr ''title'')
                        (PStr (fst (path_splitext (path_basename path))));
                  g = dict_get metadata (PStr ''tags'') (PList []);
                  c = dict_get metadata (PStr ''created'') (PStr now);
                  u = dict_get metadata (PStr ''updated'') c
              in Some (make_note path t g c u body))))"

text \<open>
  \<^verbatim>\<open>save_note\<close> returns the note object as the call leaves it, the file system as the call
  leaves it, and the boolean result.  The dict \<^verbatim>\<open>metadata\<close> (\<open>note_metadata\<close>) is a new
  object; \<^verbatim>\<open>generate_yaml_front_matter\<close> rebinds its entries, never those of the note.
\<close>

definition note_metadata :: "Note \<Rightarrow> (pyval \<times> pyval) list" where
  "note_metadata n =
     [(PStr ''title'', title n), (PStr ''tags'', tags n),
      (PStr ''created'', created n), (PStr ''updated'', updated n)]"

definition save_note :: "yaml_lib \<Rightarrow> fs \<Rightarrow> Note \<Rightarrow> Note \<times> fs \<times> bool" where
  "save_note lib f n =
     (case snd (generate_yaml_front_matter lib (note_metadata n)) of
        Inl e \<Rightarrow> (n, f, False)
      | Inr front_matter_str \<Rightarrow>
         (let full_content = front_matter_str @ [nl] @ str_strip (content n)
          in case makedirs f (path_dirname (filepath n)) of
               (f1, Some e) \<Rightarrow> (n, f1, False)
             | (f1, None) \<Rightarrow>
                (case write_text f1 (filepath n) full_content of
                   Inl e \<Rightarrow> (n, f1, False)
                 | Inr f2 \<Rightarrow> (n, f2, True))))"

text \<open>
  Line 87 of \<^verbatim>\<open>file_manager.py\<close> calls \<^verbatim>\<open>.Gsub(r'[^a-z0-9_]', '')\<close> on the string that
  \<^verbatim>\<open>title.lower().replace(' ', '_')\<close> returns.  \<open>str_attributes\<close> lists the public attributes of
  \<^verbatim>\<open>str\<close>.  \<open>str_getattr\<close> is the attribute lookup \<^verbatim>\<open>s.name\<close>: it yields the bound method, or
  raises \<^verbatim>\<open>AttributeError\<close> for a name that \<^verbatim>\<open>str\<close> does not have, before any call is made.
  \<open>call_str_method\<close> calls a bound method; it describes the methods without arguments that this
  development uses.
\<close>

definition str_attributes :: "string list" where
  "str_attributes =
     [''capitalize'', ''casefold'', ''center'', ''count'', ''encode'', ''endswith'',
      ''expandtabs'', ''find'', ''format'', ''format_map'', ''index'', ''isalnum'', ''isalpha'',
      ''isascii'', ''isdecimal'', ''isdigit'', ''isidentifier'', ''islower'', ''isnumeric'',
      ''isprintable'', ''isspace'', ''istitle'', ''isupper'', ''join'', ''ljust'', ''lower'',
      ''lstrip'', ''maketrans'', ''partition'', ''removeprefix'', ''removesuffix'', ''replace'',
      ''rfind'', ''rindex'', ''rjust'', ''rpartition'', ''rsplit'', ''rstrip'', ''split'',
      ''splitlines'', ''startswith'', ''strip'', ''swapcase'', ''title'', ''translate'', ''upper'',
      ''zfill'']"

definition str_getattr :: "string \<Rightarrow> string \<Rightarrow> py_error + (string \<times> string)" where
  "str_getattr s name =
     (if name \<in> set str_attributes then Inr (s, name) else Inl (AttributeError name))"

definition call_str_method :: "string \<times> string \<Rightarrow> string list \<Rightarrow> py_error + string" where
  "call_str_method m args =
     (if snd m = ''lower'' \<and> args = [] then Inr (str_lower (fst m))
      else if snd m = ''strip'' \<and> args = [] then Inr (str_strip (fst m))
      else Inl Unmodelled)"

definition slug_of_title :: "string \<Rightarrow> py_error + string" where
  "slug_of_title t =
     (case str_getattr (str_replace_char (str_lower t) CHR '' '' ''_'') ''Gsub'' of
        Inl e \<Rightarrow> Inl e
      | Inr m \<Rightarrow> call_str_method m [''[^a-z0-9_]'', ''''])"

text \<open>The loop \<^verbatim>\<open>while os.path.exists(filepath)\<close> of \<^verbatim>\<open>create_new_note\<close>; \<^verbatim>\<open>None\<close> when it
  does not end.\<close>

partial_function (option) free_path ::
  "fs \<Rightarrow> string \<Rightarrow> string \<Rightarrow> string \<Rightarrow> nat \<Rightarrow> string option" where
  "free_path f base_filepath ext path counter =
     (if os_path_exists f path
      then free_path f base_filepath ext (base_filepath @ ''_'' @ str_of_nat counter @ ext)
             (Suc counter)
      else Some path)"

text \<open>
  \<^verbatim>\<open>create_new_note\<close>.  \<open>now\<close> is the value of \<^verbatim>\<open>get_current_timestamp()\<close> and \<open>stamp\<close> that of
  \<^verbatim>\<open>datetime.now().strftime('%Y%m%d%H%M%S')\<close>.  The result is \<^verbatim>\<open>None\<close> when the call does not
  return; otherwise the file system it leaves and either the exception that leaves the call or
  the value returned (a note or \<^verbatim>\<open>None\<close>).
\<close>

definition create_new_note ::
  "yaml_lib \<Rightarrow> fs \<Rightarrow> string \<Rightarrow> string \<Rightarrow> string \<Rightarrow> string \<Rightarrow> pyval \<Rightarrow> string
     \<Rightarrow> (fs \<times> (py_error + Note option)) option" where
  "create_new_note lib f now stamp notes_dir t tgs body =
     (case slug_of_title t of
        Inl e \<Rightarrow> Some (f, Inl e)
      | Inr slug \<Rightarrow>
         (let filename0 = slug @ ''.md'';
              filename = (if str_strip filename0 = [] \<or> filename0 = ''.md''
                          then ''untitled_'' @ stamp @ ''.md'' else filename0);
              path0 = path_join notes_dir filename
          in case free_path f (fst (path_splitext path0)) (snd (path_splitext path0)) path0 1 of
               None \<Rightarrow> None
             | Some path \<Rightarrow>
                (let n = make_note path (PStr t) (if tgs = PNone then PList [] else tgs)
                           (PStr now) (PStr now) body
                 in case save_note lib f n of
                      (n', f', ok) \<Rightarrow> Some (f', Inr (if ok then Some n' else None)))))"

text \<open>\<^verbatim>\<open>delete_note_file\<close> returns the file system it leaves and its boolean result.\<close>

definition delete_note_file :: "fs \<Rightarrow> string \<Rightarrow> fs \<times> bool" where
  "delete_note_file f path =
     (if os_path_exists f path
      then (case os_remove f path of
              Inl e \<Rightarrow> (f, False)
            | Inr f' \<Rightarrow> (f', True))
      else (f, False))"

text \<open>
  \<^verbatim>\<open>scan_notes_directory\<close>.  \<open>clock path\<close> is what \<^verbatim>\<open>get_current_timestamp()\<close> returns while
  \<open>path\<close> is loaded.  The first argument of the loop is the list \<^verbatim>\<open>notes\<close> so far; a
  \<^verbatim>\<open>Note\<close> object is always true in \<^verbatim>\<open>if note:\<close>.
\<close>

fun scan_loop :: "yaml_lib \<Rightarrow> fs \<Rightarrow> (string \<Rightarrow> string) \<Rightarrow> Note list \<Rightarrow> string list \<Rightarrow> Note list" where
  "scan_loop lib f clock acc [] = acc"
| "scan_loop lib f clock acc (md_file # md_files) =
     (case load_note lib f (clock md_file) md_file of
        None \<Rightarrow> scan_loop lib f clock acc md_files
      | Some n \<Rightarrow> scan_loop lib f clock (acc @ [n]) md_files)"

definition scan_notes_directory :: "yaml_lib \<Rightarrow> fs \<Rightarrow> (string \<Rightarrow> string) \<Rightarrow> string \<Rightarrow> Note list" where
  "scan_notes_directory lib f clock notes_dir =
     (if \<not> os_path_isdir f notes_dir then []
      else scan_loop lib f clock [] (glob_glob f (path_join notes_dir ''*.md'')))"

declare free_path.simps [code]

section \<open>Example data\<close>

text \<open>
  What PyYAML returns on the documents of the examples below: the block it writes for the
  metadata of a note titled "Hello" and the mapping it reads back from that block, a block
  sequence, and the malformed block of the self-test in \<^verbatim>\<open>utils.py\<close> (an unclosed flow
  sequence, a \<^verbatim>\<open>yaml.YAMLError\<close>).  Any other argument is answered \<open>Unmodelled\<close>; the general
  theorems are stated for every library, and no example uses such an answer.
\<close>

definition hello_metadata :: "(pyval \<times> pyval) list" where
  "hello_metadata =
     [(PStr ''title'', PStr ''Hello''), (PStr ''tags'', PList [PStr ''a'', PStr ''b'']),
      (PStr ''created'', PStr ''2024-07-15T08:30:00+00:00''),
      (PStr ''updated'', PStr ''2024-07-16T09:00:00+00:00'')]"

definition hello_yaml :: string where
  "hello_yaml =
     ''title: Hello\<newline>tags:\<newline>- a\<newline>- b\<newline>created: '2024-07-15T08:30:00+00:00'\<newline>updated: '2024-07-16T09:00:00+00:00'\<newline>''"

definition malformed_yaml :: string where
  "malformed_yaml = ''title: Malformed\<newline>tags: [one, two\<newline>''"

text \<open>The same metadata with \<^verbatim>\<open>None\<close> for the tags, which PyYAML writes as \<^verbatim>\<open>null\<close>; and a
  block whose date has month 13, on which \<^verbatim>\<open>yaml.safe_load\<close> raises \<^verbatim>\<open>ValueError\<close> (the
  timestamp constructor builds a \<^verbatim>\<open>datetime.date\<close>), which is no \<^verbatim>\<open>yaml.YAMLError\<close>.\<close>

definition none_tags_metadata :: "(pyval \<times> pyval) list" where
  "none_tags_metadata =
     [(PStr ''title'', PStr ''Hello''), (PStr ''tags'', PNone),
      (PStr ''created'', PStr ''2024-07-15T08:30:00+00:00''),
      (PStr ''updated'', PStr ''2024-07-16T09:00:00+00:00'')]"

definition none_tags_yaml :: string where
  "none_tags_yaml =
     ''title: Hello\<newline>tags: null\<newline>created: '2024-07-15T08:30:00+00:00'\<newline>updated: '2024-07-16T09:00:00+00:00'\<newline>''"

definition bad_date_yaml :: string where
  "bad_date_yaml = ''created: 2024-13-45\<newline>''"

definition observed_yaml :: yaml_lib where
  "observed_yaml =
     \<lparr>safe_load = (\<lambda>s. if s = hello_yaml then Inr (PDict hello_metadata)
                        else if s = ''- item\<newline>'' then Inr (PList [PStr ''item''])
                        else if s = malformed_yaml then Inl YAMLError
                        else if s = none_tags_yaml then Inr (PDict none_tags_metadata)
                        else if s = bad_date_yaml then Inl ValueError
                        else Inl Unmodelled),
      dump = (\<lambda>d. if d = hello_metadata then Inr hello_yaml
                   else if d = none_tags_metadata then Inr none_tags_yaml
                   else Inl Unmodelled)\<rparr>"

definition hello_note :: Note where
  "hello_note =
     \<lparr>filepath = ''/notes/hello.md'', title = PStr ''Hello'', tags = PList [PStr ''a'', PStr ''b''],
      created = PStr ''2024-07-15T08:30:00+00:00'', updated = PStr ''2024-07-16T09:00:00+00:00'',
      content = ''  # Hello\<newline>first line\<newline>\<newline>''\<rparr>"

text \<open>The same note with a carriage return inside its content.\<close>

definition cr_note :: Note where
  "cr_note = hello_note\<lparr>content := ''one'' @ [cr] @ ''two''\<rparr>"

text \<open>A note whose \<^verbatim>\<open>updated\<close> is a \<^verbatim>\<open>datetime\<close> object.\<close>

definition dated_note :: Note where
  "dated_note = hello_note\<lparr>updated := PDatetime ''2024-07-16T09:00:00+00:00''\<rparr>"

definition list_file :: string where
  "list_file = ''---\<newline>- item\<newline>---\<newline>Body''"

definition malformed_file :: string where
  "malformed_file = ''---\<newline>title: Malformed\<newline>tags: [one, two\<newline>---\<newline>Content.''"

text \<open>
  A notes folder with a note that has front-matter, a body-only note, the two files above, a
  file that is not valid UTF-8, a directory whose name ends in \<^verbatim>\<open>.md\<close> and a text file; and a
  folder in which nothing may be removed.
\<close>

definition notes_fs :: fs where
  "notes_fs =
     \<lparr>entries =
        [(''/notes'', Directory),
         (''/notes/hello.md'', TextFile (''---\<newline>'' @ hello_yaml @ ''---\<newline>\<newline># Hello'')),
         (''/notes/no_front_matter.md'', TextFile ''# Just Content\<newline>No YAML here.''),
         (''/notes/malformed.md'', TextFile malformed_file),
         (''/notes/list.md'', TextFile list_file),
         (''/notes/broken.md'', BinaryFile),
         (''/notes/archive.md'', Directory),
         (''/notes/readme.txt'', TextFile ''not a note''),
         (''/vault'', Directory),
         (''/vault/kept.md'', TextFile ''kept'')],
      locked = [''/vault'']\<rparr>"

definition fixed_clock :: "string \<Rightarrow> string" where
  "fixed_clock path = ''2024-08-01T12:00:00+00:00''"

text \<open>The note \<open>hello_note\<close> with \<^verbatim>\<open>None\<close> assigned to its tags, and with a path that has no
  directory part.\<close>

definition none_tags_note :: Note where
  "none_tags_note = hello_note\<lparr>tags := PNone\<rparr>"

definition bare_note :: Note where
  "bare_note = hello_note\<lparr>filepath := ''hello.md''\<rparr>"

text \<open>A notes folder with one note whose front-matter holds the date with month 13.\<close>

definition bad_date_file :: string where
  "bad_date_file = ''---\<newline>created: 2024-13-45\<newline>---\<newline>Body''"

definition bad_date_fs :: fs where
  "bad_date_fs =
     \<lparr>entries = [(''/notes'', Directory), (''/notes/bad_date.md'', TextFile bad_date_file)],
      locked = []\<rparr>"

text \<open>A notes folder whose name holds brackets, with one body-only note, beside a folder
  \<^verbatim>\<open>/notes\<close> with another.\<close>

definition bracket_fs :: fs where
  "bracket_fs =
     \<lparr>entries =
        [(''/n[o]tes'', Directory), (''/n[o]tes/a.md'', TextFile ''# A''),
         (''/notes'', Directory), (''/notes/b.md'', TextFile ''# B'')],
      locked = []\<rparr>"

section \<open>Properties of the search index\<close>

subsection \<open>Strings\<close>

lemma startswith_iff: "startswith s p \<longleftrightarrow> (\<exists>r. s = p @ r)"
  by (induction s p rule: startswith.induct) auto

lemma py_in_iff: "py_in t s \<longleftrightarrow> (\<exists>a b. s = a @ t @ b)"
proof (induction s)
  case Nil
  then show ?case by auto
next
  case (Cons c s)
  show ?case
  proof
    assume "py_in t (c # s)"
    then consider "startswith (c # s) t" | "py_in t s" by auto
    then show "\<exists>a b. c # s = a @ t @ b"
    proof cases
      case 1
      then obtain r where "c # s = t @ r" by (auto simp: startswith_iff)
      then have "c # s = [] @ t @ r" by simp
      then show ?thesis by blast
    next
      case 2
      then obtain a b where "s = a @ t @ b" using Cons.IH by auto
      then have "c # s = (c # a) @ t @ b" by simp
      then show ?thesis by blast
    qed
  next
    assume "\<exists>a b. c # s = a @ t @ b"
    then obtain a b where ab: "c # s = a @ t @ b" by auto
    show "py_in t (c # s)"
    proof (cases a)
      case Nil
      then have "startswith (c # s) t" using ab by (auto simp: startswith_iff)
      then show ?thesis by simp
    next
      case (Cons x a')
      then have "s = a' @ t @ b" using ab by simp
      then have "py_in t s" using Cons.IH by auto
      then show ?thesis by simp
    qed
  qed
qed

lemma all_terms_match_iff: "all_terms_match ts text \<longleftrightarrow> (\<forall>t \<in> set ts. py_in t text)"
  by (induction ts) auto

lemma dropWhile_all_iff: "(\<forall>x \<in> set (dropWhile P xs). P x) \<longleftrightarrow> dropWhile P xs = []"
proof
  assume all: "\<forall>x \<in> set (dropWhile P xs). P x"
  show "dropWhile P xs = []"
  proof (rule ccontr)
    assume ne: "dropWhile P xs \<noteq> []"
    then have "\<not> P (hd (dropWhile P xs))" by (rule hd_dropWhile)
    moreover have "hd (dropWhile P xs) \<in> set (dropWhile P xs)" using ne by simp
    ultimately show False using all by blast
  qed
next
  assume e: "dropWhile P xs = []"
  show "\<forall>x \<in> set (dropWhile P xs). P x" unfolding e by simp
qed

lemma str_strip_empty_iff: "str_strip q = [] \<longleftrightarrow> (\<forall>c \<in> set q. str_isspace c)"
proof -
  have "str_strip q = [] \<longleftrightarrow> (\<forall>x \<in> set (dropWhile str_isspace q). str_isspace x)"
    by (simp add: str_strip_def)
  also have "\<dots> \<longleftrightarrow> dropWhile str_isspace q = []" by (rule dropWhile_all_iff)
  also have "\<dots> \<longleftrightarrow> (\<forall>c \<in> set q. str_isspace c)" by simp
  finally show ?thesis .
qed

lemma split_acc_nonempty: "w \<noteq> [] \<or> (\<exists>c \<in> set s. \<not> str_isspace c) \<Longrightarrow> split_acc w s \<noteq> []"
  by (induction w s rule: split_acc.induct) auto

lemma split_acc_words: "t \<in> set (split_acc w s) \<Longrightarrow> t \<noteq> []"
  by (induction w s rule: split_acc.induct) (auto split: if_splits)

lemma char_lower_space: "str_isspace (char_lower c) \<longleftrightarrow> str_isspace c"
proof -
  let ?n = "of_char c :: nat"
  have lt: "?n < 256" by simp
  show ?thesis
  proof (cases "(65 \<le> ?n \<and> ?n \<le> 90) \<or> (192 \<le> ?n \<and> ?n \<le> 222 \<and> ?n \<noteq> 215)")
    case True
    then have "char_lower c = char_of (?n + 32)" by (simp add: char_lower_def Let_def)
    moreover have "(of_char (char_of (?n + 32)) :: nat) = ?n + 32" using True by auto
    ultimately show ?thesis using True by (auto simp: str_isspace_def)
  next
    case False
    then have "char_lower c = c" by (auto simp: char_lower_def Let_def)
    then show ?thesis by simp
  qed
qed

subsection \<open>The loops\<close>

lemma build_loop_append:
  "build_loop acc ns = Inr idx \<Longrightarrow>
   \<exists>es. idx = acc @ es \<and> map Inr es = map make_entry ns"
proof (induction ns arbitrary: acc)
  case Nil
  then show ?case by simp
next
  case (Cons n ns)
  then obtain en where en: "make_entry n = Inr en" and rest: "build_loop (acc @ [en]) ns = Inr idx"
    by (auto split: sum.splits)
  from Cons.IH [OF rest] obtain es where "idx = (acc @ [en]) @ es" "map Inr es = map make_entry ns"
    by blast
  then have "idx = acc @ (en # es) \<and> map Inr (en # es) = map make_entry (n # ns)"
    using en by simp
  then show ?case by blast
qed

lemma make_entry_fields:
  "make_entry n = Inr en \<Longrightarrow> original_note en = n \<and> entry_id en = filepath n"
  by (auto simp: make_entry_def split: sum.splits)

lemma entries_of_notes:
  "map Inr idx = map make_entry nts \<Longrightarrow>
   map original_note idx = nts \<and> map entry_id idx = map filepath nts"
proof (induction idx arbitrary: nts)
  case Nil
  then show ?case by simp
next
  case (Cons item idx)
  then obtain n ns where ns: "nts = n # ns" and n: "make_entry n = Inr item"
    and rest: "map Inr idx = map make_entry ns"
    by (cases nts) auto
  show ?case using ns Cons.IH [OF rest] make_entry_fields [OF n] by simp
qed

lemma build_index_entries:
  assumes "build_index nts = Inr idx"
  shows "map Inr idx = map make_entry nts"
  using build_loop_append [of "[]" nts idx] assms by (auto simp: build_index_def)

lemma search_loop_distinct:
  "distinct (map entry_id items) \<Longrightarrow> set (map entry_id items) \<inter> seen = {} \<Longrightarrow>
   search_loop terms st sg sc results seen items =
     results @ map original_note
       (filter (\<lambda>item. all_terms_match terms (combined_text st sg sc item)) items)"
proof (induction items arbitrary: results seen)
  case Nil
  then show ?case by simp
next
  case (Cons item items)
  have d: "distinct (map entry_id items)" using Cons.prems by simp
  show ?case
  proof (cases "all_terms_match terms (combined_text st sg sc item)")
    case True
    have notin: "entry_id item \<notin> seen" using Cons.prems by auto
    have disj: "set (map entry_id items) \<inter> insert (entry_id item) seen = {}"
      using Cons.prems by auto
    show ?thesis using True notin Cons.IH [OF d disj] by simp
  next
    case False
    have disj: "set (map entry_id items) \<inter> seen = {}" using Cons.prems by auto
    show ?thesis using False Cons.IH [OF d disj] by simp
  qed
qed

lemma search_loop_no_match:
  "\<forall>item \<in> set items. \<not> all_terms_match terms (combined_text st sg sc item) \<Longrightarrow>
   search_loop terms st sg sc results seen items = results"
  by (induction items arbitrary: results seen) auto

lemma indexed_text_entry:
  "make_entry n = Inr item \<Longrightarrow> indexed_text st sg sc n = combined_text st sg sc item"
  by (simp add: indexed_text_def)

lemma filter_entries_notes:
  "map Inr idx = map make_entry nts \<Longrightarrow>
   map original_note (filter (\<lambda>item. P (combined_text st sg sc item)) idx) =
     filter (\<lambda>n. P (indexed_text st sg sc n)) nts"
proof (induction idx arbitrary: nts)
  case Nil
  then show ?case by simp
next
  case (Cons item idx)
  then obtain n ns where ns: "nts = n # ns" and n: "make_entry n = Inr item"
    and rest: "map Inr idx = map make_entry ns"
    by (cases nts) auto
  have "original_note item = n" using make_entry_fields [OF n] by simp
  then show ?case using ns Cons.IH [OF rest] indexed_text_entry [OF n] by simp
qed

subsection \<open>Tags\<close>

lemma lower_all_strs: "lower_all (map PStr ts) = Inr (map str_lower ts)"
  by (induction ts) auto

lemma add_tags_strs:
  "distinct xs \<Longrightarrow>
   \<exists>ys. add_tags (map PStr xs) (map PStr ts) = Inr (map PStr ys) \<and> distinct ys
     \<and> set ys = set xs \<union> set ts"
proof (induction ts arbitrary: xs)
  case Nil
  then show ?case by auto
next
  case (Cons t ts)
  show ?case
  proof (cases "t \<in> set xs")
    case True
    then have step: "add_tags (map PStr xs) (map PStr (t # ts)) = add_tags (map PStr xs) (map PStr ts)"
      by auto
    from Cons.IH [OF Cons.prems] obtain ys where
      "add_tags (map PStr xs) (map PStr ts) = Inr (map PStr ys)" "distinct ys"
      "set ys = set xs \<union> set ts" by blast
    then show ?thesis using step True by auto
  next
    case False
    then have step: "add_tags (map PStr xs) (map PStr (t # ts)) =
        add_tags (map PStr (xs @ [t])) (map PStr ts)"
      by auto
    have d: "distinct (xs @ [t])" using False Cons.prems by simp
    from Cons.IH [OF d] obtain ys where
      "add_tags (map PStr (xs @ [t])) (map PStr ts) = Inr (map PStr ys)" "distinct ys"
      "set ys = set (xs @ [t]) \<union> set ts" by blast
    then show ?thesis using step by auto
  qed
qed

lemma collect_tags_strs:
  "distinct xs \<Longrightarrow>
   \<forall>item \<in> set items. tags (original_note item) = PList (map PStr (f item)) \<Longrightarrow>
   \<exists>ys. collect_tags (map PStr xs) items = Inr (map PStr ys) \<and> distinct ys
     \<and> set ys = set xs \<union> (\<Union>item \<in> set items. set (f item))"
proof (induction items arbitrary: xs)
  case Nil
  then show ?case by auto
next
  case (Cons item items)
  have t: "py_iter (tags (original_note item)) = Inr (map PStr (f item))"
    using Cons.prems by simp
  from add_tags_strs [OF Cons.prems(1), of "f item"] obtain zs where
    zs: "add_tags (map PStr xs) (map PStr (f item)) = Inr (map PStr zs)" "distinct zs"
      "set zs = set xs \<union> set (f item)" by blast
  have rest: "\<forall>item \<in> set items. tags (original_note item) = PList (map PStr (f item))"
    using Cons.prems by simp
  from Cons.IH [OF zs(2) rest] obtain ys where
    ys: "collect_tags (map PStr zs) items = Inr (map PStr ys)" "distinct ys"
      "set ys = set zs \<union> (\<Union>item \<in> set items. set (f item))" by blast
  have "collect_tags (map PStr xs) (item # items) = Inr (map PStr ys)"
    using t zs(1) ys(1) by simp
  moreover have "set ys = set xs \<union> (\<Union>i \<in> set (item # items). set (f i))"
    using ys(3) zs(3) by auto
  ultimately show ?case using ys(2) by blast
qed

lemma py_sorted_strs: "py_sorted (map PStr ys) = Inr (map PStr (sort ys))"
proof (cases "length ys \<le> 1")
  case True
  then have "ys = [] \<or> (\<exists>y. ys = [y])" by (cases ys) auto
  then show ?thesis by (auto simp: py_sorted_def)
next
  case False
  have "list_all is_str (map PStr ys)" by (induction ys) auto
  moreover have "map str_of (map PStr ys) = ys" by (induction ys) auto
  ultimately show ?thesis using False by (simp add: py_sorted_def)
qed

lemma example_index_web: "build_index [note_web, note_ideas] = Inr (index_of [note_web, note_ideas])"
  by code_simp

lemma example_index_plan:
  "build_index [note_plan_a, note_plan_b] = Inr (index_of [note_plan_a, note_plan_b])"
  by code_simp

lemma example_index_hobby:
  "build_index [note_hobby_upper, note_hobby_lower] =
     Inr (index_of [note_hobby_upper, note_hobby_lower])"
  by code_simp

subsection \<open>The claims about the search index\<close>

text \<open>
  C3 (amended).  Let \<open>search\<close> run on the index built from a list of notes whose file paths are
  pairwise distinct.  A blank query returns the notes in build order.  Any other query is
  lower-cased and split on whitespace, and the result is, in build order, exactly the notes
  whose indexed text contains every term as a contiguous substring.  For a note whose title is a
  string and whose tags are a list of strings the indexed text is the enabled fields among the
  lower-cased title, the lower-cased tags and the lower-cased content, joined with single
  spaces.  On the two notes of the specification's example, "python ideas" finds the second note
  only, "python" finds both, "nonexistent_term_xyz" finds nothing and the empty query returns
  both.
\<close>

theorem search_and_semantics:
  "(build_index nts = Inr idx \<and> distinct (map filepath nts) \<longrightarrow>
      search idx query st sg sc =
        (if str_strip query = [] then nts
         else filter (\<lambda>n. \<forall>t \<in> set (str_split (str_lower query)).
                        \<exists>a b. indexed_text st sg sc n = a @ t @ b) nts))
   \<and> (title n = PStr t \<and> tags n = PList (map PStr ts) \<longrightarrow>
        indexed_text st sg sc n =
          str_join '' '' ((if st then [str_lower t] else [])
                          @ (if sg then map str_lower ts else [])
                          @ (if sc then [str_lower (content n)] else [])))
   \<and> search (index_of [note_web, note_ideas]) ''python ideas'' True True True = [note_ideas]
   \<and> search (index_of [note_web, note_ideas]) ''python'' True True True = [note_web, note_ideas]
   \<and> search (index_of [note_web, note_ideas]) ''nonexistent_term_xyz'' True True True = []
   \<and> search (index_of [note_web, note_ideas]) '''' True True True = [note_web, note_ideas]"
proof -
  have general: "search idx query st sg sc =
        (if str_strip query = [] then nts
         else filter (\<lambda>n. \<forall>t \<in> set (str_split (str_lower query)).
                        \<exists>a b. indexed_text st sg sc n = a @ t @ b) nts)"
    if built: "build_index nts = Inr idx" and dist: "distinct (map filepath nts)"
  proof -
    have m: "map Inr idx = map make_entry nts" using built by (rule build_index_entries)
    have orig: "map original_note idx = nts" and ids: "map entry_id idx = map filepath nts"
      using entries_of_notes [OF m] by simp_all
    show ?thesis
    proof (cases "str_strip query = []")
      case True
      then show ?thesis using orig by (simp add: search_def)
    next
      case False
      let ?terms = "str_split (str_lower query)"
      have d: "distinct (map entry_id idx)" using ids dist by simp
      have "search idx query st sg sc =
          map original_note (filter (\<lambda>item. all_terms_match ?terms (combined_text st sg sc item)) idx)"
        using False search_loop_distinct [OF d, of "{}" ?terms st sg sc "[]"]
        by (simp add: search_def)
      also have "\<dots> = filter (\<lambda>n. all_terms_match ?terms (indexed_text st sg sc n)) nts"
        using filter_entries_notes [OF m, of "all_terms_match ?terms" st sg sc] .
      also have "\<dots> = filter (\<lambda>n. \<forall>t \<in> set ?terms. \<exists>a b. indexed_text st sg sc n = a @ t @ b) nts"
        by (simp add: all_terms_match_iff py_in_iff)
      finally show ?thesis using False by simp
    qed
  qed
  have joined: "indexed_text st sg sc n =
          str_join '' '' ((if st then [str_lower t] else [])
                          @ (if sg then map str_lower ts else [])
                          @ (if sc then [str_lower (content n)] else []))"
    if "title n = PStr t" and "tags n = PList (map PStr ts)"
    using that
    by (simp add: indexed_text_def make_entry_def lower_all_strs combined_text_def
        text_to_search_def)
  have e1: "search (index_of [note_web, note_ideas]) ''python ideas'' True True True = [note_ideas]"
    by code_simp
  have e2: "search (index_of [note_web, note_ideas]) ''python'' True True True
      = [note_web, note_ideas]"
    by code_simp
  have e3: "search (index_of [note_web, note_ideas]) ''nonexistent_term_xyz'' True True True = []"
    by code_simp
  have e4: "search (index_of [note_web, note_ideas]) '''' True True True = [note_web, note_ideas]"
    by code_simp
  show ?thesis using general joined e1 e2 e3 e4 by blast
qed

theorem search_and_semantics_witness:
  "build_index [note_web, note_ideas] = Inr (index_of [note_web, note_ideas])
   \<and> distinct (map filepath [note_web, note_ideas])
   \<and> search (index_of [note_web, note_ideas]) ''Web'' True True True =
       filter (\<lambda>n. \<forall>t \<in> set (str_split (str_lower ''Web'')).
                  \<exists>a b. indexed_text True True True n = a @ t @ b) [note_web, note_ideas]
   \<and> title note_web = PStr ''Python Web Development''
   \<and> tags note_web = PList (map PStr [''python'', ''web''])
   \<and> indexed_text True True True note_web = ''python web development python web ''"
proof -
  have d: "distinct (map filepath [note_web, note_ideas])" by code_simp
  have q: "str_strip ''Web'' \<noteq> []" by code_simp
  have t: "title note_web = PStr ''Python Web Development''"
    by (simp add: note_web_def plain_note_def)
  have g: "tags note_web = PList (map PStr [''python'', ''web''])"
    by (simp add: note_web_def plain_note_def)
  have c: "content note_web = ''''" by (simp add: note_web_def plain_note_def)
  have l1: "str_lower ''Python Web Development'' = ''python web development''" by code_simp
  have l2: "map str_lower [''python'', ''web''] = [''python'', ''web'']" by code_simp
  have l3: "str_lower '''' = ''''" by code_simp
  have s: "search (index_of [note_web, note_ideas]) ''Web'' True True True =
       filter (\<lambda>n. \<forall>t \<in> set (str_split (str_lower ''Web'')).
                  \<exists>a b. indexed_text True True True n = a @ t @ b) [note_web, note_ideas]"
    using search_and_semantics
      [of "[note_web, note_ideas]" "index_of [note_web, note_ideas]" "''Web''" True True True]
      example_index_web d q
    by simp
  have j: "indexed_text True True True note_web = ''python web development python web ''"
    using search_and_semantics
      [of _ _ _ True True True note_web "''Python Web Development''" "[''python'', ''web'']"]
      t g c l1 l2 l3
    by simp
  show ?thesis using example_index_web d s t g j by simp
qed

text \<open>
  The claim as stated, for every indexed note list, fails when two notes share a file path:
  both notes below contain the term, and only the first is returned.
\<close>

theorem search_duplicate_path_counterexample:
  "build_index [note_plan_a, note_plan_b] = Inr (index_of [note_plan_a, note_plan_b])
   \<and> str_split (str_lower ''plan'') = [''plan'']
   \<and> py_in ''plan'' (indexed_text True True True note_plan_a)
   \<and> py_in ''plan'' (indexed_text True True True note_plan_b)
   \<and> note_plan_b \<noteq> note_plan_a
   \<and> search (index_of [note_plan_a, note_plan_b]) ''plan'' True True True = [note_plan_a]"
proof -
  have a: "str_split (str_lower ''plan'') = [''plan'']" by code_simp
  have b: "py_in ''plan'' (indexed_text True True True note_plan_a)" by code_simp
  have c: "py_in ''plan'' (indexed_text True True True note_plan_b)" by code_simp
  have d: "note_plan_b \<noteq> note_plan_a" by (simp add: note_plan_a_def note_plan_b_def plain_note_def)
  have e: "search (index_of [note_plan_a, note_plan_b]) ''plan'' True True True = [note_plan_a]"
    by code_simp
  show ?thesis using example_index_plan a b c d e by simp
qed

text \<open>
  C10.  With the three flags off, a query that has a character other than whitespace finds
  nothing, whatever the index holds; a query that is empty or all whitespace returns every
  indexed note, in index order, whatever the flags.
\<close>

theorem search_no_fields:
  "((\<exists>c \<in> set query. \<not> str_isspace c) \<longrightarrow> search notes_data query False False False = [])
   \<and> ((\<forall>c \<in> set query. str_isspace c) \<longrightarrow>
        search notes_data query st sg sc = map original_note notes_data)"
proof (intro conjI impI)
  assume blank: "\<forall>c \<in> set query. str_isspace c"
  then have "str_strip query = []" by (simp add: str_strip_empty_iff)
  then show "search notes_data query st sg sc = map original_note notes_data"
    by (simp add: search_def)
next
  assume ex: "\<exists>c \<in> set query. \<not> str_isspace c"
  then have ne: "str_strip query \<noteq> []" by (simp add: str_strip_empty_iff)
  let ?terms = "str_split (str_lower query)"
  have "\<exists>c \<in> set (str_lower query). \<not> str_isspace c"
    using ex by (auto simp: str_lower_def char_lower_space)
  then have "?terms \<noteq> []" unfolding str_split_def by (intro split_acc_nonempty) simp
  then obtain t ts where tts: "?terms = t # ts" by (cases ?terms) auto
  then have "t \<in> set (split_acc [] (str_lower query))" by (simp add: str_split_def)
  then have "t \<noteq> []" by (rule split_acc_words)
  then have nomatch: "\<not> all_terms_match ?terms []" using tts by simp
  have empty: "\<And>item. combined_text False False False item = []"
    by (simp add: combined_text_def text_to_search_def)
  have "search_loop ?terms False False False [] {} notes_data = []"
    by (rule search_loop_no_match) (simp add: empty nomatch)
  then show "search notes_data query False False False = []"
    using ne by (simp add: search_def)
qed

theorem search_no_fields_witness:
  "list_ex (\<lambda>c. \<not> str_isspace c) ''python''
   \<and> search (index_of [note_web, note_ideas]) ''python'' False False False = []
   \<and> list_all str_isspace ''  ''
   \<and> search (index_of [note_web, note_ideas]) ''  '' False True False = [note_web, note_ideas]"
proof -
  have a: "list_ex (\<lambda>c. \<not> str_isspace c) ''python''" by code_simp
  have b: "list_all str_isspace ''  ''" by code_simp
  have m: "map original_note (index_of [note_web, note_ideas]) = [note_web, note_ideas]"
    by code_simp
  have "search (index_of [note_web, note_ideas]) ''python'' False False False = []"
    using search_no_fields [of "''python''" "index_of [note_web, note_ideas]"] a
    by (simp add: list_ex_iff)
  moreover have "search (index_of [note_web, note_ideas]) ''  '' False True False
      = [note_web, note_ideas]"
    using search_no_fields [of "''  ''" "index_of [note_web, note_ideas]" False True False] b m
    by (simp add: list_all_iff)
  ultimately show ?thesis using a b by simp
qed

text \<open>
  C7.  When the tags of every indexed note are a list of strings (\<open>f\<close> names them),
  \<open>get_all_tags\<close> returns strings \<open>ts\<close> that are sorted by code point (the order of
  \<^typ>\<open>string\<close> compares character codes lexicographically), hold no string twice, and are
  exactly the tags of the notes as given: no tag is lower-cased, and two tags are merged only
  when they are the same string.  A note tagged "Hobby" and a note tagged "hobby" give both.
\<close>

theorem get_all_tags_sorted_union:
  "((\<forall>item \<in> set notes_data. tags (original_note item) = PList (map PStr (f item))) \<longrightarrow>
      (\<exists>ts. get_all_tags notes_data = Inr (map PStr ts) \<and> sorted ts \<and> distinct ts
         \<and> set ts = (\<Union>item \<in> set notes_data. set (f item))))
   \<and> get_all_tags (index_of [note_hobby_upper, note_hobby_lower])
       = Inr [PStr ''Hobby'', PStr ''hobby'']"
proof (intro conjI impI)
  assume typed: "\<forall>item \<in> set notes_data. tags (original_note item) = PList (map PStr (f item))"
  from collect_tags_strs [of "[]" notes_data f] typed obtain ys where
    ys: "collect_tags [] notes_data = Inr (map PStr ys)" "distinct ys"
      "set ys = (\<Union>item \<in> set notes_data. set (f item))" by auto
  have "get_all_tags notes_data = Inr (map PStr (sort ys))"
    using ys(1) by (simp add: get_all_tags_def py_sorted_strs)
  moreover have "sorted (sort ys)" by simp
  moreover have "distinct (sort ys)" using ys(2) by simp
  moreover have "set (sort ys) = (\<Union>item \<in> set notes_data. set (f item))" using ys(3) by simp
  ultimately show "\<exists>ts. get_all_tags notes_data = Inr (map PStr ts) \<and> sorted ts \<and> distinct ts
         \<and> set ts = (\<Union>item \<in> set notes_data. set (f item))" by blast
next
  show "get_all_tags (index_of [note_hobby_upper, note_hobby_lower])
       = Inr [PStr ''Hobby'', PStr ''hobby'']"
    by code_simp
qed

theorem get_all_tags_sorted_union_witness:
  "list_all (\<lambda>item. tags (original_note item) = PList (map PStr (tag_strings item)))
     (index_of [note_hobby_upper, note_hobby_lower])
   \<and> (\<exists>ts. get_all_tags (index_of [note_hobby_upper, note_hobby_lower]) = Inr (map PStr ts)
         \<and> sorted ts \<and> distinct ts
         \<and> set ts = (\<Union>item \<in> set (index_of [note_hobby_upper, note_hobby_lower]).
                        set (tag_strings item)))"
proof -
  have typed: "list_all (\<lambda>item. tags (original_note item) = PList (map PStr (tag_strings item)))
     (index_of [note_hobby_upper, note_hobby_lower])"
    by code_simp
  then have "\<forall>item \<in> set (index_of [note_hobby_upper, note_hobby_lower]).
      tags (original_note item) = PList (map PStr (tag_strings item))"
    by (simp only: list_all_iff)
  then show ?thesis
    using typed
      get_all_tags_sorted_union [of "index_of [note_hobby_upper, note_hobby_lower]" tag_strings]
    by blast
qed

section \<open>Properties of the note store\<close>

subsection \<open>Creating a note\<close>

text \<open>
  C1.  The claim is that \<open>create_new_note\<close> derives a slug from the title and returns a note
  or a failure signal without raising.  The code looks up the attribute \<^verbatim>\<open>Gsub\<close> of a
  \<^verbatim>\<open>str\<close>, which does not exist: every call, whatever its arguments and whatever the file
  system holds, raises \<^verbatim>\<open>AttributeError\<close> and leaves the file system as it was.
\<close>

theorem create_new_note_raises:
  "create_new_note lib f now stamp notes_dir t tgs body = Some (f, Inl (AttributeError ''Gsub''))"
  by (simp add: create_new_note_def slug_of_title_def str_getattr_def str_attributes_def)

subsection \<open>Deleting a note\<close>

text \<open>
  C5 (amended).  For a path at which nothing exists, \<open>delete_note_file\<close> returns \<open>False\<close> and
  leaves the file system as it was; it never raises.  When the path exists and \<^verbatim>\<open>os.remove\<close>
  fails, it returns \<open>False\<close> as well, so the result does not tell the two outcomes apart.  It
  returns \<open>True\<close> exactly when the removal succeeded.
\<close>

theorem delete_note_file_outcomes:
  "(\<not> os_path_exists f path \<longrightarrow> delete_note_file f path = (f, False))
   \<and> (os_path_exists f path \<and> os_remove f path = Inl e \<longrightarrow> delete_note_file f path = (f, False))
   \<and> (os_remove f path = Inr f' \<longrightarrow>
        delete_note_file f path = (f', True) \<and> map_of (entries f') path = None)"
proof (intro conjI impI)
  assume "\<not> os_path_exists f path"
  then show "delete_note_file f path = (f, False)" by (simp add: delete_note_file_def)
next
  assume "os_path_exists f path \<and> os_remove f path = Inl e"
  then show "delete_note_file f path = (f, False)" by (simp add: delete_note_file_def)
next
  assume r: "os_remove f path = Inr f'"
  then have ex: "map_of (entries f) path \<noteq> None"
    by (auto simp: os_remove_def split: option.splits)
  then show "delete_note_file f path = (f', True)"
    using r by (simp add: delete_note_file_def os_path_exists_def)
next
  assume r: "os_remove f path = Inr f'"
  then have f': "entries f' = filter (\<lambda>(q, m). q \<noteq> path) (entries f)"
    by (auto simp: os_remove_def split: option.splits node.splits if_splits)
  have "path \<notin> fst ` set (entries f')" using f' by auto
  then show "map_of (entries f') path = None" by (simp add: map_of_eq_None_iff)
qed

theorem delete_note_file_outcomes_witness:
  "\<not> os_path_exists notes_fs ''/notes/gone.md''
   \<and> delete_note_file notes_fs ''/notes/gone.md'' = (notes_fs, False)
   \<and> os_path_exists notes_fs ''/vault/kept.md''
   \<and> os_remove notes_fs ''/vault/kept.md'' = Inl PermissionError
   \<and> delete_note_file notes_fs ''/vault/kept.md'' = (notes_fs, False)
   \<and> snd (delete_note_file notes_fs ''/notes/list.md'')
   \<and> map_of (entries (fst (delete_note_file notes_fs ''/notes/list.md''))) ''/notes/list.md'' = None"
proof -
  have a: "\<not> os_path_exists notes_fs ''/notes/gone.md''" by code_simp
  have b: "os_path_exists notes_fs ''/vault/kept.md''" by code_simp
  have c: "os_remove notes_fs ''/vault/kept.md'' = Inl PermissionError" by code_simp
  obtain f' where d: "os_remove notes_fs ''/notes/list.md'' = Inr f'"
    by (cases "os_remove notes_fs ''/notes/list.md''")
       (simp_all add: os_remove_def notes_fs_def path_dirname_def path_cut_def slash_def)
  have "delete_note_file notes_fs ''/notes/gone.md'' = (notes_fs, False)"
    using delete_note_file_outcomes [of notes_fs "''/notes/gone.md''"] a by simp
  moreover have "delete_note_file notes_fs ''/vault/kept.md'' = (notes_fs, False)"
    using delete_note_file_outcomes [of notes_fs "''/vault/kept.md''" PermissionError] b c by simp
  moreover have "delete_note_file notes_fs ''/notes/list.md'' = (f', True)
      \<and> map_of (entries f') ''/notes/list.md'' = None"
    using delete_note_file_outcomes [of notes_fs "''/notes/list.md''" _ f'] d by simp
  ultimately show ?thesis using a b c by simp
qed

text \<open>
  The claim that the not-found outcome can be told from the outcome of a failed removal does
  not hold: nothing exists at the first path, the file at the second path exists and cannot be
  removed, and both calls return \<open>False\<close>.
\<close>

theorem delete_outcomes_equal_counterexample:
  "\<not> os_path_exists notes_fs ''/notes/gone.md''
   \<and> os_path_exists notes_fs ''/vault/kept.md''
   \<and> os_remove notes_fs ''/vault/kept.md'' = Inl PermissionError
   \<and> snd (delete_note_file notes_fs ''/notes/gone.md'')
       = snd (delete_note_file notes_fs ''/vault/kept.md'')"
  by code_simp

subsection \<open>Saving a note\<close>

lemma generate_leaves_dict:
  "fst (generate_yaml_front_matter lib m) = iso_entry (iso_entry m ''created'') ''updated''"
proof (cases "iso_entry (iso_entry m ''created'') ''updated'' = []")
  case True
  then show ?thesis by (simp add: generate_yaml_front_matter_def Let_def)
next
  case False
  show ?thesis
  proof (cases "dump lib (iso_entry (iso_entry m ''created'') ''updated'')")
    case (Inl e)
    then show ?thesis using False by (simp add: generate_yaml_front_matter_def Let_def)
  next
    case (Inr y)
    then show ?thesis using False by (simp add: generate_yaml_front_matter_def Let_def)
  qed
qed

text \<open>
  C9.  Whatever the library and the file system do, \<open>save_note\<close> leaves the note object as
  it was given, on success and on failure.  In particular \<open>updated\<close> is not touched: when it
  holds a \<^verbatim>\<open>datetime\<close>, the ISO text replaces it in the dict \<^verbatim>\<open>metadata\<close> only.
\<close>

theorem save_note_keeps_note:
  "fst (save_note lib f n) = n
   \<and> (updated n = PDatetime iso_text \<longrightarrow>
        updated (fst (save_note lib f n)) = PDatetime iso_text
        \<and> map_of (fst (generate_yaml_front_matter lib (note_metadata n))) (PStr ''updated'')
            = Some (PStr iso_text))"
proof -
  have kept: "fst (save_note lib f n) = n"
    by (simp add: save_note_def Let_def split: sum.splits prod.splits option.splits)
  have "map_of (fst (generate_yaml_front_matter lib (note_metadata n))) (PStr ''updated'')
            = Some (PStr iso_text)"
    if "updated n = PDatetime iso_text"
  proof -
    let ?m = "iso_entry (note_metadata n) ''created''"
    have "map_of ?m (PStr ''updated'') = Some (PDatetime iso_text)"
      using that
      by (simp add: iso_entry_def note_metadata_def dict_set_def dict_has_def
          split: option.splits pyval.splits)
    then have "map_of (iso_entry ?m ''updated'') (PStr ''updated'') = Some (PStr iso_text)"
      by (auto simp: iso_entry_def note_metadata_def dict_set_def dict_has_def
          split: option.splits pyval.splits)
    moreover have "fst (generate_yaml_front_matter lib (note_metadata n)) = iso_entry ?m ''updated''"
      by (rule generate_leaves_dict)
    ultimately show ?thesis by simp
  qed
  then show ?thesis using kept by simp
qed

theorem save_note_keeps_note_witness:
  "updated dated_note = PDatetime ''2024-07-16T09:00:00+00:00''
   \<and> fst (save_note observed_yaml notes_fs dated_note) = dated_note
   \<and> snd (snd (save_note observed_yaml notes_fs dated_note))
   \<and> map_of (fst (generate_yaml_front_matter observed_yaml (note_metadata dated_note)))
         (PStr ''updated'') = Some (PStr ''2024-07-16T09:00:00+00:00'')"
proof -
  have u: "updated dated_note = PDatetime ''2024-07-16T09:00:00+00:00''"
    by (simp add: dated_note_def)
  have ok: "snd (snd (save_note observed_yaml notes_fs dated_note))" by code_simp
  show ?thesis
    using save_note_keeps_note [of observed_yaml notes_fs dated_note "''2024-07-16T09:00:00+00:00''"]
      u ok
    by simp
qed

subsection \<open>Scanning a directory\<close>

lemma scan_loop_map_filter:
  "scan_loop lib f clock acc paths =
     acc @ List.map_filter (\<lambda>p. load_note lib f (clock p) p) paths"
proof (induction paths arbitrary: acc)
  case Nil
  then show ?case by (simp add: List.map_filter_simps)
next
  case (Cons p paths)
  then show ?case by (cases "load_note lib f (clock p) p") (simp_all add: List.map_filter_simps)
qed

lemma length_map_filter: "length (List.map_filter g xs) = length (filter (\<lambda>x. g x \<noteq> None) xs)"
  by (simp add: List.map_filter_def)

text \<open>
  What \<open>scan_notes_directory\<close> returns in general: nothing when \<^verbatim>\<open>os.path.isdir\<close> fails, and
  otherwise, in the order of the listing, the notes of the paths that \<^verbatim>\<open>glob.glob\<close> returns
  for the pattern and that \<open>load_note\<close> loads.  A failed load is skipped.  When the directory
  part of a pattern has no wildcard, \<^verbatim>\<open>glob.glob\<close> lists that very directory.
\<close>

lemma scan_loads_globbed:
  "scan_notes_directory lib f clock notes_dir =
     (if \<not> os_path_isdir f notes_dir then []
      else List.map_filter (\<lambda>p. load_note lib f (clock p) p)
             (glob_glob f (path_join notes_dir ''*.md'')))"
  by (simp add: scan_notes_directory_def scan_loop_map_filter)

lemma glob_plain_directory:
  "has_magic pathname \<Longrightarrow> has_magic (path_basename pathname) \<Longrightarrow>
   path_dirname pathname \<noteq> [] \<Longrightarrow> \<not> has_magic (path_dirname pathname) \<Longrightarrow>
   glob_glob f pathname =
     map (path_join (path_dirname pathname))
       (glob1 f (path_dirname pathname) (path_basename pathname) False)"
  by (simp add: glob_glob_def glob_rec.simps)

lemma scan_example:
  "length (scan_notes_directory observed_yaml notes_fs fixed_clock ''/notes'') = 4
   \<and> scan_notes_directory observed_yaml notes_fs fixed_clock ''/missing'' = []"
  by code_simp

text \<open>
  C8.  The claim is that a scan of a directory with \<open>N\<close> loadable \<^verbatim>\<open>.md\<close> files returns
  exactly their \<open>N\<close> notes.  The code hands \<^verbatim>\<open>os.path.join(notes_dir, "*.md")\<close> to
  \<^verbatim>\<open>glob.glob\<close> without escaping the directory name, so the characters \<^verbatim>\<open>*\<close>, \<^verbatim>\<open>?\<close> and
  \<^verbatim>\<open>[\<close> in the name are read as a pattern.  The directory \<^verbatim>\<open>/n[o]tes\<close> below exists and
  holds one loadable note, \<^verbatim>\<open>a.md\<close>; the pattern lists \<^verbatim>\<open>/notes\<close> instead, and the scan
  returns the note of \<^verbatim>\<open>/notes/b.md\<close>, which is not in the directory scanned.
\<close>

theorem scan_bracket_directory:
  "os_path_isdir bracket_fs ''/n[o]tes''
   \<and> listdir bracket_fs ''/n[o]tes'' False = [''a.md'']
   \<and> load_note observed_yaml bracket_fs (fixed_clock ''/n[o]tes/a.md'') ''/n[o]tes/a.md''
       = Some (make_note ''/n[o]tes/a.md'' (PStr ''a'') (PList []) (PStr ''2024-08-01T12:00:00+00:00'')
                 (PStr ''2024-08-01T12:00:00+00:00'') ''# A'')
   \<and> glob_glob bracket_fs (path_join ''/n[o]tes'' ''*.md'') = [''/notes/b.md'']
   \<and> scan_notes_directory observed_yaml bracket_fs fixed_clock ''/n[o]tes''
       = [make_note ''/notes/b.md'' (PStr ''b'') (PList []) (PStr ''2024-08-01T12:00:00+00:00'')
            (PStr ''2024-08-01T12:00:00+00:00'') ''# B'']"
  by code_simp

subsection \<open>The front-matter block\<close>

lemma ws_nl_shape:
  "r \<in> set (ws_nl s) \<Longrightarrow> \<exists>w. s = w @ [nl] @ r \<and> list_all str_isspace w"
proof (induction s)
  case Nil
  then show ?case by simp
next
  case (Cons c s)
  then have sp: "str_isspace c" by (auto split: if_splits)
  from Cons.prems sp consider "r \<in> set (ws_nl s)" | "c = nl" "r = s" by (auto split: if_splits)
  then show ?case
  proof cases
    case 1
    then obtain w where "s = w @ [nl] @ r" "list_all str_isspace w" using Cons.IH by blast
    then have "c # s = (c # w) @ [nl] @ r \<and> list_all str_isspace (c # w)" using sp by simp
    then show ?thesis by blast
  next
    case 2
    then have "c # s = [] @ [nl] @ r \<and> list_all str_isspace []" by simp
    then show ?thesis by blast
  qed
qed

lemma close_at_shape:
  "close_at s = Some r \<Longrightarrow> \<exists>w. s = ''---'' @ w @ [nl] @ r \<and> list_all str_isspace w"
proof -
  assume c: "close_at s = Some r"
  then have st: "startswith s ''---''" by (auto simp: close_at_def split: if_splits)
  then obtain t where t: "s = ''---'' @ t" using startswith_iff by blast
  then have "drop 3 s = t" by simp
  then have "r \<in> set (ws_nl t)" using c st by (auto simp: close_at_def split: list.splits)
  then obtain w where "t = w @ [nl] @ r" "list_all str_isspace w" using ws_nl_shape by blast
  then show ?thesis using t by blast
qed

lemma lazy_group_shape:
  "lazy_group g s = Some (g', r) \<Longrightarrow>
   \<exists>x w. g' = g @ x @ [nl] \<and> s = x @ [nl] @ ''---'' @ w @ [nl] @ r \<and> list_all str_isspace w"
proof (induction s arbitrary: g)
  case Nil
  then show ?case by simp
next
  case (Cons c s)
  show ?case
  proof (cases "c = nl \<and> close_at s \<noteq> None")
    case True
    then obtain r' where r': "close_at s = Some r'" by auto
    then have res: "g' = g @ [c]" "r = r'" using Cons.prems True by auto
    from close_at_shape [OF r'] obtain w where "s = ''---'' @ w @ [nl] @ r'" "list_all str_isspace w"
      by blast
    then have "g' = g @ [] @ [nl] \<and> c # s = [] @ [nl] @ ''---'' @ w @ [nl] @ r \<and> list_all str_isspace w"
      using res True by simp
    then show ?thesis by blast
  next
    case False
    then have "lazy_group (g @ [c]) s = Some (g', r)"
      using Cons.prems by (auto split: if_splits option.splits)
    from Cons.IH [OF this] obtain x w where
      "g' = (g @ [c]) @ x @ [nl]" "s = x @ [nl] @ ''---'' @ w @ [nl] @ r" "list_all str_isspace w"
      by blast
    then have "g' = g @ (c # x) @ [nl] \<and> c # s = (c # x) @ [nl] @ ''---'' @ w @ [nl] @ r
        \<and> list_all str_isspace w"
      by simp
    then show ?thesis by blast
  qed
qed

lemma first_some_map: "first_some (map h xs) = Some y \<Longrightarrow> \<exists>x \<in> set xs. h x = Some y"
proof (induction xs)
  case Nil
  then show ?case by simp
next
  case (Cons x xs)
  then show ?case by (cases "h x") auto
qed

lemma fm_match_shape:
  assumes "fm_match text = Some (g, r)"
  shows "\<exists>w1 x w2. text = ''---'' @ w1 @ [nl] @ g @ ''---'' @ w2 @ [nl] @ r \<and> g = x @ [nl]
           \<and> list_all str_isspace w1 \<and> list_all str_isspace w2"
proof -
  from assms have st: "startswith text ''---''" by (auto simp: fm_match_def split: if_splits)
  then obtain t where t: "text = ''---'' @ t" using startswith_iff by blast
  then have "drop 3 text = t" by simp
  then have "first_some (map (lazy_group []) (ws_nl t)) = Some (g, r)"
    using assms st by (simp add: fm_match_def)
  from first_some_map [OF this]
  obtain s where s: "s \<in> set (ws_nl t)" "lazy_group [] s = Some (g, r)"
    by blast
  from ws_nl_shape [OF s(1)] obtain w1 where w1: "t = w1 @ [nl] @ s" "list_all str_isspace w1"
    by blast
  from lazy_group_shape [OF s(2)] obtain x w2 where
    x: "g = [] @ x @ [nl]" "s = x @ [nl] @ ''---'' @ w2 @ [nl] @ r" "list_all str_isspace w2"
    by blast
  have "text = ''---'' @ w1 @ [nl] @ g @ ''---'' @ w2 @ [nl] @ r" using t w1(1) x(1) x(2) by simp
  then show ?thesis using x(1) w1(2) x(3) by auto
qed

text \<open>
  C4 (amended).  Let a leading front-matter block be present in the text: the text is
  \<^verbatim>\<open>---\<close>, whitespace ending in a line break, the interior \<open>g\<close> (which ends in a line break),
  \<^verbatim>\<open>---\<close>, whitespace ending in a line break, and the rest.  When the interior is malformed
  YAML (\<open>safe_load\<close> raises \<^verbatim>\<open>yaml.YAMLError\<close>), \<open>parse_yaml_front_matter\<close> returns the empty
  mapping and the entire text.  When the interior is valid YAML for a value that is not a
  mapping, it returns the empty mapping and the rest of the text after the block.  In both
  cases it returns and does not raise.
\<close>

theorem parse_unparseable_block:
  "fm_match text = Some (g, rest) \<longrightarrow>
     (\<exists>w1 x w2. text = ''---'' @ w1 @ [nl] @ g @ ''---'' @ w2 @ [nl] @ rest \<and> g = x @ [nl]
        \<and> list_all str_isspace w1 \<and> list_all str_isspace w2)
     \<and> (safe_load lib g = Inl YAMLError \<longrightarrow> parse_yaml_front_matter lib text = Inr ([], text))
     \<and> (safe_load lib g = Inr v \<and> \<not> is_dict v \<longrightarrow>
          parse_yaml_front_matter lib text = Inr ([], rest))"
proof (intro impI conjI)
  assume m: "fm_match text = Some (g, rest)"
  then show "\<exists>w1 x w2. text = ''---'' @ w1 @ [nl] @ g @ ''---'' @ w2 @ [nl] @ rest \<and> g = x @ [nl]
        \<and> list_all str_isspace w1 \<and> list_all str_isspace w2"
    by (rule fm_match_shape)
next
  assume "fm_match text = Some (g, rest)" and "safe_load lib g = Inl YAMLError"
  then show "parse_yaml_front_matter lib text = Inr ([], text)"
    by (simp add: parse_yaml_front_matter_def)
next
  assume "fm_match text = Some (g, rest)" and "safe_load lib g = Inr v \<and> \<not> is_dict v"
  then show "parse_yaml_front_matter lib text = Inr ([], rest)"
    by (cases v) (simp_all add: parse_yaml_front_matter_def)
qed

theorem parse_unparseable_block_witness:
  "fm_match malformed_file = Some (malformed_yaml, ''Content.'')
   \<and> safe_load observed_yaml malformed_yaml = Inl YAMLError
   \<and> parse_yaml_front_matter observed_yaml malformed_file = Inr ([], malformed_file)
   \<and> fm_match list_file = Some (''- item\<newline>'', ''Body'')
   \<and> safe_load observed_yaml ''- item\<newline>'' = Inr (PList [PStr ''item''])
   \<and> \<not> is_dict (PList [PStr ''item''])
   \<and> parse_yaml_front_matter observed_yaml list_file = Inr ([], ''Body'')"
proof -
  have a: "fm_match malformed_file = Some (malformed_yaml, ''Content.'')" by code_simp
  have b: "safe_load observed_yaml malformed_yaml = Inl YAMLError" by code_simp
  have c: "fm_match list_file = Some (''- item\<newline>'', ''Body'')" by code_simp
  have d: "safe_load observed_yaml ''- item\<newline>'' = Inr (PList [PStr ''item''])" by code_simp
  have "parse_yaml_front_matter observed_yaml malformed_file = Inr ([], malformed_file)"
    using parse_unparseable_block [of malformed_file malformed_yaml "''Content.''" observed_yaml]
      a b
    by simp
  moreover have "parse_yaml_front_matter observed_yaml list_file = Inr ([], ''Body'')"
    using parse_unparseable_block
      [of list_file "''- item\<newline>''" "''Body''" observed_yaml "PList [PStr ''item'']"] c d
    by simp
  ultimately show ?thesis using a b c d by simp
qed

text \<open>
  The claim that the entire original text is returned as the body fails for a block whose
  interior is valid YAML for a value that is not a mapping: for the text below, whose block
  holds a one-item sequence, the body returned is \<open>Body\<close>, not the text.
\<close>

theorem parse_non_mapping_counterexample:
  "fm_match list_file = Some (''- item\<newline>'', ''Body'')
   \<and> safe_load observed_yaml ''- item\<newline>'' = Inr (PList [PStr ''item''])
   \<and> parse_yaml_front_matter observed_yaml list_file = Inr ([], ''Body'')
   \<and> parse_yaml_front_matter observed_yaml list_file \<noteq> Inr ([], list_file)"
  by code_simp

subsection \<open>Loading a note\<close>

text \<open>
  The defaults of \<open>load_note\<close>.  Let the file at \<open>path\<close> be readable, with text \<open>text\<close>.
  When the text has no front-matter block, or a block on which \<open>safe_load\<close> raises
  \<^verbatim>\<open>yaml.YAMLError\<close>, or a block that is valid YAML for a value that is not a mapping,
  \<open>load_note\<close> succeeds: the note has the base name of the file without its extension as
  title, no tags, the timestamp read at load time as \<open>created\<close>, and \<open>updated\<close> equal to
  \<open>created\<close>.  Its content is the whole text in the first two cases and the text after the
  block in the third.
\<close>

theorem load_note_defaults:
  "(read_text f path = Inr text \<and> fm_match text = None \<longrightarrow>
      load_note lib f now path =
        Some \<lparr>filepath = path, title = PStr (fst (path_splitext (path_basename path))),
              tags = PList [], created = PStr now, updated = PStr now, content = text\<rparr>)
   \<and> (read_text f path = Inr text \<and> fm_match text = Some (g, rest)
        \<and> safe_load lib g = Inl YAMLError \<longrightarrow>
      load_note lib f now path =
        Some \<lparr>filepath = path, title = PStr (fst (path_splitext (path_basename path))),
              tags = PList [], created = PStr now, updated = PStr now, content = text\<rparr>)
   \<and> (read_text f path = Inr text \<and> fm_match text = Some (g, rest)
        \<and> safe_load lib g = Inr v \<and> \<not> is_dict v \<longrightarrow>
      load_note lib f now path =
        Some \<lparr>filepath = path, title = PStr (fst (path_splitext (path_basename path))),
              tags = PList [], created = PStr now, updated = PStr now, content = rest\<rparr>)"
proof (intro conjI impI)
  assume "read_text f path = Inr text \<and> fm_match text = None"
  then show "load_note lib f now path =
        Some \<lparr>filepath = path, title = PStr (fst (path_splitext (path_basename path))),
              tags = PList [], created = PStr now, updated = PStr now, content = text\<rparr>"
    by (simp add: load_note_def parse_yaml_front_matter_def dict_get_def Let_def make_note_def)
next
  assume "read_text f path = Inr text \<and> fm_match text = Some (g, rest)
        \<and> safe_load lib g = Inl YAMLError"
  then show "load_note lib f now path =
        Some \<lparr>filepath = path, title = PStr (fst (path_splitext (path_basename path))),
              tags = PList [], created = PStr now, updated = PStr now, content = text\<rparr>"
    by (simp add: load_note_def parse_yaml_front_matter_def dict_get_def Let_def make_note_def)
next
  assume a: "read_text f path = Inr text \<and> fm_match text = Some (g, rest)
        \<and> safe_load lib g = Inr v \<and> \<not> is_dict v"
  then have "parse_yaml_front_matter lib text = Inr ([], rest)"
    by (cases v) (simp_all add: parse_yaml_front_matter_def)
  then show "load_note lib f now path =
        Some \<lparr>filepath = path, title = PStr (fst (path_splitext (path_basename path))),
              tags = PList [], created = PStr now, updated = PStr now, content = rest\<rparr>"
    using a by (simp add: load_note_def dict_get_def Let_def make_note_def)
qed

theorem load_note_defaults_witness:
  "read_text notes_fs ''/notes/no_front_matter.md'' = Inr ''# Just Content\<newline>No YAML here.''
   \<and> fm_match ''# Just Content\<newline>No YAML here.'' = None
   \<and> load_note observed_yaml notes_fs ''2024-08-01T12:00:00+00:00'' ''/notes/no_front_matter.md'' =
        Some \<lparr>filepath = ''/notes/no_front_matter.md'', title = PStr ''no_front_matter'',
              tags = PList [], created = PStr ''2024-08-01T12:00:00+00:00'',
              updated = PStr ''2024-08-01T12:00:00+00:00'',
              content = ''# Just Content\<newline>No YAML here.''\<rparr>
   \<and> read_text notes_fs ''/notes/malformed.md'' = Inr malformed_file
   \<and> fm_match malformed_file = Some (malformed_yaml, ''Content.'')
   \<and> safe_load observed_yaml malformed_yaml = Inl YAMLError
   \<and> load_note observed_yaml notes_fs ''2024-08-01T12:00:00+00:00'' ''/notes/malformed.md'' =
        Some \<lparr>filepath = ''/notes/malformed.md'', title = PStr ''malformed'',
              tags = PList [], created = PStr ''2024-08-01T12:00:00+00:00'',
              updated = PStr ''2024-08-01T12:00:00+00:00'', content = malformed_file\<rparr>
   \<and> read_text notes_fs ''/notes/list.md'' = Inr list_file
   \<and> fm_match list_file = Some (''- item\<newline>'', ''Body'')
   \<and> safe_load observed_yaml ''- item\<newline>'' = Inr (PList [PStr ''item''])
   \<and> load_note observed_yaml notes_fs ''2024-08-01T12:00:00+00:00'' ''/notes/list.md'' =
        Some \<lparr>filepath = ''/notes/list.md'', title = PStr ''list'',
              tags = PList [], created = PStr ''2024-08-01T12:00:00+00:00'',
              updated = PStr ''2024-08-01T12:00:00+00:00'', content = ''Body''\<rparr>"
proof -
  have r1: "read_text notes_fs ''/notes/no_front_matter.md''
      = Inr ''# Just Content\<newline>No YAML here.''"
    by code_simp
  have m1: "fm_match ''# Just Content\<newline>No YAML here.'' = None" by code_simp
  have t1: "fst (path_splitext (path_basename ''/notes/no_front_matter.md'')) = ''no_front_matter''"
    by code_simp
  have r2: "read_text notes_fs ''/notes/malformed.md'' = Inr malformed_file" by code_simp
  have m2: "fm_match malformed_file = Some (malformed_yaml, ''Content.'')" by code_simp
  have y2: "safe_load observed_yaml malformed_yaml = Inl YAMLError" by code_simp
  have t2: "fst (path_splitext (path_basename ''/notes/malformed.md'')) = ''malformed''"
    by code_simp
  have r3: "read_text notes_fs ''/notes/list.md'' = Inr list_file" by code_simp
  have m3: "fm_match list_file = Some (''- item\<newline>'', ''Body'')" by code_simp
  have y3: "safe_load observed_yaml ''- item\<newline>'' = Inr (PList [PStr ''item''])" by code_simp
  have t3: "fst (path_splitext (path_basename ''/notes/list.md'')) = ''list''" by code_simp
  have l1: "load_note observed_yaml notes_fs ''2024-08-01T12:00:00+00:00''
        ''/notes/no_front_matter.md'' =
        Some \<lparr>filepath = ''/notes/no_front_matter.md'', title = PStr ''no_front_matter'',
              tags = PList [], created = PStr ''2024-08-01T12:00:00+00:00'',
              updated = PStr ''2024-08-01T12:00:00+00:00'',
              content = ''# Just Content\<newline>No YAML here.''\<rparr>"
    using load_note_defaults [of notes_fs "''/notes/no_front_matter.md''"
        "''# Just Content\<newline>No YAML here.''" observed_yaml "''2024-08-01T12:00:00+00:00''"]
      r1 m1 t1
    by simp
  have l2: "load_note observed_yaml notes_fs ''2024-08-01T12:00:00+00:00'' ''/notes/malformed.md'' =
        Some \<lparr>filepath = ''/notes/malformed.md'', title = PStr ''malformed'',
              tags = PList [], created = PStr ''2024-08-01T12:00:00+00:00'',
              updated = PStr ''2024-08-01T12:00:00+00:00'', content = malformed_file\<rparr>"
    using load_note_defaults [of notes_fs "''/notes/malformed.md''" malformed_file observed_yaml
        "''2024-08-01T12:00:00+00:00''" malformed_yaml "''Content.''"]
      r2 m2 y2 t2
    by simp
  have l3: "load_note observed_yaml notes_fs ''2024-08-01T12:00:00+00:00'' ''/notes/list.md'' =
        Some \<lparr>filepath = ''/notes/list.md'', title = PStr ''list'',
              tags = PList [], created = PStr ''2024-08-01T12:00:00+00:00'',
              updated = PStr ''2024-08-01T12:00:00+00:00'', content = ''Body''\<rparr>"
    using load_note_defaults [of notes_fs "''/notes/list.md''" list_file observed_yaml
        "''2024-08-01T12:00:00+00:00''" "''- item\<newline>''" "''Body''" "PList [PStr ''item'']"]
      r3 m3 y3 t3
    by simp
  show ?thesis using r1 m1 l1 r2 m2 y2 l2 r3 m3 y3 l3 by simp
qed

text \<open>
  C6.  The claim is that loading never fails because of the metadata: a readable file whose
  front-matter cannot be parsed still gives a note with the default title, tags and timestamps.
  \<open>parse_yaml_front_matter\<close> catches \<^verbatim>\<open>yaml.YAMLError\<close> only.  On the block below, whose
  date has month 13, \<^verbatim>\<open>yaml.safe_load\<close> raises \<^verbatim>\<open>ValueError\<close>; the exception leaves
  \<open>parse_yaml_front_matter\<close>, \<open>load_note\<close> catches it and returns \<^verbatim>\<open>None\<close>: the load of a
  readable file fails, and it fails on its metadata alone.
\<close>

theorem load_note_bad_date_fails:
  "read_text bad_date_fs ''/notes/bad_date.md'' = Inr bad_date_file
   \<and> fm_match bad_date_file = Some (bad_date_yaml, ''Body'')
   \<and> safe_load observed_yaml bad_date_yaml = Inl ValueError
   \<and> parse_yaml_front_matter observed_yaml bad_date_file = Inl ValueError
   \<and> load_note observed_yaml bad_date_fs ''2024-08-01T12:00:00+00:00'' ''/notes/bad_date.md'' = None"
  by code_simp

subsection \<open>Saving and loading again\<close>

lemma universal_newlines_Cons: "c \<noteq> cr \<Longrightarrow> universal_newlines (c # s) = c # universal_newlines s"
  by (cases s) simp_all

lemma universal_newlines_append:
  "cr \<notin> set a \<Longrightarrow> universal_newlines (a @ b) = a @ universal_newlines b"
proof (induction a)
  case Nil
  then show ?case by simp
next
  case (Cons c a)
  then have "c \<noteq> cr" by auto
  then have "universal_newlines (c # (a @ b)) = c # universal_newlines (a @ b)"
    by (rule universal_newlines_Cons)
  then show ?case using Cons by simp
qed

lemma universal_newlines_no_cr: "cr \<notin> set s \<Longrightarrow> universal_newlines s = s"
  using universal_newlines_append [of s "[]"] by simp

lemma cr_is_space: "str_isspace cr"
  by (simp add: str_isspace_def cr_def)

lemma nl_is_space: "str_isspace nl"
  by (simp add: str_isspace_def nl_def)

lemma universal_newlines_hd:
  assumes "s = [] \<or> \<not> str_isspace (hd s)"
  shows "universal_newlines s = [] \<or> \<not> str_isspace (hd (universal_newlines s))"
proof (cases s)
  case Nil
  then show ?thesis by simp
next
  case (Cons c t)
  then have "c \<noteq> cr" using assms cr_is_space by auto
  then show ?thesis using Cons assms by (simp add: universal_newlines_Cons)
qed

lemma dropWhile_hd: "dropWhile P xs = [] \<or> \<not> P (hd (dropWhile P xs))"
  using hd_dropWhile [of P xs] by blast

lemma str_strip_ends:
  "str_strip s = [] \<or> (\<not> str_isspace (hd (str_strip s)) \<and> \<not> str_isspace (last (str_strip s)))"
proof (cases "str_strip s = []")
  case True
  then show ?thesis by simp
next
  case False
  let ?d = "dropWhile str_isspace s"
  let ?e = "dropWhile str_isspace (rev ?d)"
  have strip: "str_strip s = rev ?e" by (simp add: str_strip_def)
  then have e: "?e \<noteq> []" using False by simp
  then have "\<not> str_isspace (hd ?e)" using dropWhile_hd [of str_isspace "rev ?d"] by blast
  then have lst: "\<not> str_isspace (last (str_strip s))" using strip e by (simp add: last_rev)
  have "rev ?d = takeWhile str_isspace (rev ?d) @ ?e" by simp
  then have "rev (rev ?d) = rev (takeWhile str_isspace (rev ?d) @ ?e)" by (rule arg_cong)
  then have d: "?d = rev ?e @ rev (takeWhile str_isspace (rev ?d))" by (simp only: rev_rev_ident rev_append)
  have re: "rev ?e \<noteq> []" using e by (simp only: rev_is_Nil_conv not_False_eq_True)
  then have "?d \<noteq> []" using d by (metis append_is_Nil_conv)
  then have h1: "\<not> str_isspace (hd ?d)" using dropWhile_hd [of str_isspace s] by blast
  have h2: "hd ?d = hd (rev ?e)" using d re by (metis hd_append2)
  have "\<not> str_isspace (hd (rev ?e))" using h1 h2 by metis
  then have "\<not> str_isspace (hd (str_strip s))" using strip by metis
  then show ?thesis using lst by blast
qed

lemma str_strip_fixed:
  assumes "t = [] \<or> (\<not> str_isspace (hd t) \<and> \<not> str_isspace (last t))"
  shows "str_strip t = t"
proof (cases t)
  case Nil
  then show ?thesis by (simp add: str_strip_def)
next
  case (Cons c u)
  then have h: "\<not> str_isspace (hd t)" and l: "\<not> str_isspace (last t)" using assms by auto
  have "dropWhile str_isspace t = t" using h Cons by simp
  moreover have "dropWhile str_isspace (rev t) = rev t"
  proof -
    have ne: "t \<noteq> []" using Cons by simp
    then have "hd (rev t) = last t" by (simp add: hd_rev)
    moreover have "rev t \<noteq> []" using ne by simp
    ultimately obtain xs where r: "rev t = last t # xs" by (cases "rev t") auto
    have "dropWhile str_isspace (last t # xs) = last t # xs" using l by simp
    then show ?thesis by (simp only: r)
  qed
  ultimately show ?thesis by (simp add: str_strip_def)
qed

lemma str_strip_idem: "str_strip (str_strip s) = str_strip s"
  using str_strip_fixed [OF str_strip_ends] .

lemma ws_nl_nonspace: "s = [] \<or> \<not> str_isspace (hd s) \<Longrightarrow> ws_nl s = []"
  by (cases s) auto

lemma close_at_delimiter:
  assumes "c = [] \<or> \<not> str_isspace (hd c)"
  shows "close_at (''---'' @ [nl] @ [nl] @ c) = Some c"
proof -
  have "ws_nl ([nl] @ [nl] @ c) = [c, nl # c]"
    using ws_nl_nonspace [OF assms] nl_is_space by simp
  moreover have "drop 3 (''---'' @ [nl] @ [nl] @ c) = [nl] @ [nl] @ c" by simp
  moreover have "startswith (''---'' @ [nl] @ [nl] @ c) ''---''" by simp
  ultimately show ?thesis unfolding close_at_def by (simp only: if_True list.case)
qed

lemma lazy_group_block:
  assumes "close_at tail = Some r"
  shows "v \<noteq> [] \<Longrightarrow> last v = nl \<Longrightarrow>
         (\<And>a b. v = a @ nl # b \<Longrightarrow> b \<noteq> [] \<Longrightarrow> close_at (b @ tail) = None) \<Longrightarrow>
         lazy_group g (v @ tail) = Some (g @ v, r)"
proof (induction v arbitrary: g)
  case Nil
  then show ?case by simp
next
  case (Cons c v)
  show ?case
  proof (cases "v = []")
    case True
    then have "c = nl" using Cons.prems(2) by simp
    then show ?thesis using True assms by simp
  next
    case False
    have lst: "last v = nl" using Cons.prems(2) False by simp
    have later: "\<And>a b. v = a @ nl # b \<Longrightarrow> b \<noteq> [] \<Longrightarrow> close_at (b @ tail) = None"
    proof -
      fix a b assume "v = a @ nl # b" and b: "b \<noteq> []"
      then have "c # v = (c # a) @ nl # b" by simp
      then show "close_at (b @ tail) = None" using Cons.prems(3) b by blast
    qed
    have rec: "lazy_group (g @ [c]) (v @ tail) = Some ((g @ [c]) @ v, r)"
      using Cons.IH [OF False lst later] .
    show ?thesis
    proof (cases "c = nl")
      case True
      then have "c # v = [] @ nl # v" by simp
      then have "close_at (v @ tail) = None" using Cons.prems(3) False by blast
      then show ?thesis using True rec by simp
    next
      case False
      then show ?thesis using rec by simp
    qed
  qed
qed

lemma no_delimiter_inside:
  assumes "\<not> py_in (nl # ''---'') y" and "last y = nl" and "y = a @ nl # b" and "b \<noteq> []"
  shows "close_at (b @ tail) = None"
proof -
  have lb: "last b = nl" using assms(2,3,4) by simp
  have "\<not> startswith (b @ tail) ''---''"
  proof
    assume st: "startswith (b @ tail) ''---''"
    obtain x1 b1 where b1: "b = x1 # b1" using assms(4) by (cases b) auto
    then have x1: "x1 = CHR ''-''" using st by simp
    have "b1 \<noteq> []" using lb b1 x1 by (auto simp: nl_def)
    then obtain x2 b2 where b2: "b1 = x2 # b2" by (cases b1) auto
    then have x2: "x2 = CHR ''-''" using st b1 by simp
    have "b2 \<noteq> []" using lb b1 b2 x2 by (auto simp: nl_def)
    then obtain x3 b3 where b3: "b2 = x3 # b3" by (cases b2) auto
    then have x3: "x3 = CHR ''-''" using st b1 b2 by simp
    have "y = a @ (nl # ''---'') @ b3" using assms(3) b1 b2 b3 x1 x2 x3 by simp
    then have "py_in (nl # ''---'') y" using py_in_iff by blast
    then show False using assms(1) by simp
  qed
  then show ?thesis by (simp add: close_at_def)
qed

lemma fm_match_block:
  assumes "clean_block y" and "c = [] \<or> \<not> str_isspace (hd c)"
  shows "fm_match (''---'' @ [nl] @ y @ ''---'' @ [nl] @ [nl] @ c) = Some (y, c)"
proof -
  let ?tail = "''---'' @ [nl] @ [nl] @ c"
  have y: "y \<noteq> []" "last y = nl" "\<not> str_isspace (hd y)" "\<not> py_in (nl # ''---'') y"
    using assms(1) by (simp_all add: clean_block_def)
  have cl: "close_at ?tail = Some c" using assms(2) by (rule close_at_delimiter)
  have lg: "lazy_group [] (y @ ?tail) = Some ([] @ y, c)"
    using cl y(1) y(2)
  proof (rule lazy_group_block)
    fix a b assume "y = a @ nl # b" and "b \<noteq> []"
    then show "close_at (b @ ?tail) = None" using no_delimiter_inside [OF y(4) y(2)] by blast
  qed
  have "hd (y @ ?tail) = hd y" using y(1) by simp
  then have "ws_nl (y @ ?tail) = []" using y(1) y(3) by (intro ws_nl_nonspace) simp
  then have w: "ws_nl (nl # y @ ?tail) = [y @ ?tail]" using nl_is_space by simp
  have d: "drop 3 (''---'' @ [nl] @ y @ ?tail) = nl # y @ ?tail" by simp
  have s: "startswith (''---'' @ [nl] @ y @ ?tail) ''---''" by simp
  have "fm_match (''---'' @ [nl] @ y @ ?tail) = first_some (map (lazy_group []) [y @ ?tail])"
    unfolding fm_match_def by (simp only: s d w if_True)
  then show ?thesis using lg by simp
qed

lemma map_of_put_entry: "map_of (put_entry es p n) p = Some n"
proof (cases "map_of es p")
  case None
  then show ?thesis by (simp add: put_entry_def map_add_def)
next
  case (Some m)
  have "map_of es p \<noteq> None \<Longrightarrow>
      map_of (map (\<lambda>(q, m). if q = p then (q, n) else (q, m)) es) p = Some n"
    by (induction es) (auto split: if_splits)
  then show ?thesis using Some by (simp add: put_entry_def)
qed

lemma write_then_read:
  "write_text f p t = Inr f' \<Longrightarrow> read_text f' p = Inr (universal_newlines t)"
proof -
  assume w: "write_text f p t = Inr f'"
  then have "entries f' = put_entry (entries f) p (TextFile t)"
    by (auto simp: write_text_def split: if_splits option.splits)
  then have "map_of (entries f') p = Some (TextFile t)" by (simp add: map_of_put_entry)
  then show ?thesis by (simp add: read_text_def)
qed

lemma iso_entry_other:
  "map_of m (PStr key) = Some v \<Longrightarrow> \<not> is_datetime v \<Longrightarrow> iso_entry m key = m"
  by (cases v) (simp_all add: iso_entry_def)

lemma generate_plain:
  assumes "\<not> is_datetime (created n)" and "\<not> is_datetime (updated n)"
    and "dump lib (note_metadata n) = Inr y"
  shows "snd (generate_yaml_front_matter lib (note_metadata n)) = Inr (''---'' @ [nl] @ y @ ''---'' @ [nl])"
proof -
  have c: "iso_entry (note_metadata n) ''created'' = note_metadata n"
    using assms(1) by (intro iso_entry_other [of _ _ "created n"]) (simp_all add: note_metadata_def)
  have u: "iso_entry (note_metadata n) ''updated'' = note_metadata n"
    using assms(2) by (intro iso_entry_other [of _ _ "updated n"]) (simp_all add: note_metadata_def)
  have ne: "note_metadata n \<noteq> []" by (simp add: note_metadata_def)
  show ?thesis using c u ne assms(3) by (simp add: generate_yaml_front_matter_def Let_def)
qed

lemma save_note_written:
  assumes "save_note lib f n = (n', f', True)"
    and "snd (generate_yaml_front_matter lib (note_metadata n)) = Inr front"
  shows "read_text f' (filepath n) = Inr (universal_newlines (front @ [nl] @ str_strip (content n)))"
proof -
  obtain f1 r where m: "makedirs f (path_dirname (filepath n)) = (f1, r)" by (cases "makedirs f (path_dirname (filepath n))")
  have r: "r = None" using assms m by (cases r) (simp_all add: save_note_def Let_def)
  have "write_text f1 (filepath n) (front @ [nl] @ str_strip (content n)) = Inr f'"
    using assms m r
    by (cases "write_text f1 (filepath n) (front @ [nl] @ str_strip (content n))")
       (simp_all add: save_note_def Let_def)
  then show ?thesis by (rule write_then_read)
qed

lemma str_strip_subset: "set (str_strip s) \<subseteq> set s"
proof
  fix x assume "x \<in> set (str_strip s)"
  then have "x \<in> set (dropWhile str_isspace (rev (dropWhile str_isspace s)))"
    by (simp add: str_strip_def)
  then have "x \<in> set (rev (dropWhile str_isspace s))" by (rule set_dropWhileD)
  then have "x \<in> set (dropWhile str_isspace s)" by simp
  then show "x \<in> set s" by (rule set_dropWhileD)
qed

lemma load_after_save:
  assumes plain: "\<not> is_datetime (created n)" "\<not> is_datetime (updated n)"
    and tagged: "tags n \<noteq> PNone"
    and dumped: "dump lib (note_metadata n) = Inr y"
    and clean: "clean_block y"
    and loaded: "safe_load lib y = Inr (PDict (note_metadata n))"
    and saved: "save_note lib f n = (n', f', True)"
  shows "load_note lib f' now (filepath n)
    = Some (n\<lparr>content := universal_newlines (str_strip (content n))\<rparr>)"
proof -
  let ?c = "str_strip (content n)"
  let ?c' = "universal_newlines ?c"
  let ?pre = "''---'' @ [nl] @ y @ ''---'' @ [nl] @ [nl]"
  have front: "snd (generate_yaml_front_matter lib (note_metadata n))
      = Inr (''---'' @ [nl] @ y @ ''---'' @ [nl])"
    using plain dumped by (rule generate_plain)
  have r0: "read_text f' (filepath n)
      = Inr (universal_newlines ((''---'' @ [nl] @ y @ ''---'' @ [nl]) @ [nl] @ ?c))"
    using saved front by (rule save_note_written)
  have r1: "(''---'' @ [nl] @ y @ ''---'' @ [nl]) @ [nl] @ ?c = ?pre @ ?c" by simp
  have "cr \<notin> set ?pre" using clean by (simp add: clean_block_def cr_def nl_def)
  then have r2: "universal_newlines (?pre @ ?c) = ?pre @ ?c'" by (rule universal_newlines_append)
  have rd: "read_text f' (filepath n) = Inr (?pre @ ?c')"
    using r0 by (simp only: r1 r2)
  have "?c' = [] \<or> \<not> str_isspace (hd ?c')"
    using str_strip_ends [of "content n"] by (intro universal_newlines_hd) blast
  then have "fm_match (''---'' @ [nl] @ y @ ''---'' @ [nl] @ [nl] @ ?c') = Some (y, ?c')"
    using clean by (intro fm_match_block)
  moreover have "?pre @ ?c' = ''---'' @ [nl] @ y @ ''---'' @ [nl] @ [nl] @ ?c'" by simp
  ultimately have m: "fm_match (?pre @ ?c') = Some (y, ?c')" by (simp only:)
  have p: "parse_yaml_front_matter lib (?pre @ ?c') = Inr (note_metadata n, ?c')"
    unfolding parse_yaml_front_matter_def m by (simp add: loaded)
  have "load_note lib f' now (filepath n)
      = Some \<lparr>filepath = filepath n, title = title n, tags = tags n, created = created n,
              updated = updated n, content = ?c'\<rparr>"
    unfolding load_note_def rd sum.case p
    using tagged by (simp add: dict_get_def note_metadata_def Let_def make_note_def)
  then show ?thesis by (cases n) simp
qed

text \<open>
  C2 (amended).  Let a note have tags other than \<^verbatim>\<open>None\<close> and \<open>created\<close> and \<open>updated\<close> that
  are no \<^verbatim>\<open>datetime\<close> objects.  Let the text \<open>y\<close> that \<^verbatim>\<open>yaml.dump\<close> writes for the note's
  metadata be a clean block (it is not empty, ends in a line break, begins with a character
  that is not whitespace, holds no carriage return, and none of its lines after the first
  begins with \<^verbatim>\<open>---\<close>), let \<^verbatim>\<open>yaml.safe_load\<close> read \<open>y\<close> back as the same mapping, and let
  \<open>save_note\<close> succeed.  Then \<open>load_note\<close> on the same path succeeds; title, tags, created and
  updated (and the path) are those of the note, and the content is the stripped content of the
  note with every \<^verbatim>\<open>\r\n\<close> and \<^verbatim>\<open>\r\<close> replaced by \<^verbatim>\<open>\n\<close>.  When the content holds no
  carriage return, the two contents are equal after stripping both.
\<close>

theorem save_then_load:
  "\<not> is_datetime (created n) \<and> \<not> is_datetime (updated n) \<and> tags n \<noteq> PNone
   \<and> dump lib (note_metadata n) = Inr y \<and> clean_block y
   \<and> safe_load lib y = Inr (PDict (note_metadata n))
   \<and> save_note lib f n = (n', f', True)
   \<longrightarrow> load_note lib f' now (filepath n)
         = Some (n\<lparr>content := universal_newlines (str_strip (content n))\<rparr>)
       \<and> (cr \<notin> set (content n) \<longrightarrow>
            (\<exists>m. load_note lib f' now (filepath n) = Some m
               \<and> title m = title n \<and> tags m = tags n \<and> created m = created n
               \<and> updated m = updated n
               \<and> str_strip (content m) = str_strip (content n)))"
proof (intro impI conjI)
  assume a: "\<not> is_datetime (created n) \<and> \<not> is_datetime (updated n) \<and> tags n \<noteq> PNone
   \<and> dump lib (note_metadata n) = Inr y \<and> clean_block y
   \<and> safe_load lib y = Inr (PDict (note_metadata n))
   \<and> save_note lib f n = (n', f', True)"
  then show l: "load_note lib f' now (filepath n)
         = Some (n\<lparr>content := universal_newlines (str_strip (content n))\<rparr>)"
    by (intro load_after_save [of n lib y f n' f' now]) simp_all
  assume "cr \<notin> set (content n)"
  then have "cr \<notin> set (str_strip (content n))" using str_strip_subset by blast
  then have "universal_newlines (str_strip (content n)) = str_strip (content n)"
    by (rule universal_newlines_no_cr)
  then have "load_note lib f' now (filepath n) = Some (n\<lparr>content := str_strip (content n)\<rparr>)"
    using l by simp
  moreover have "str_strip (content (n\<lparr>content := str_strip (content n)\<rparr>)) = str_strip (content n)"
    by (simp add: str_strip_idem)
  ultimately show "\<exists>m. load_note lib f' now (filepath n) = Some m
               \<and> title m = title n \<and> tags m = tags n \<and> created m = created n
               \<and> updated m = updated n
               \<and> str_strip (content m) = str_strip (content n)"
    by simp
qed

theorem save_then_load_witness:
  "\<not> is_datetime (created hello_note) \<and> \<not> is_datetime (updated hello_note)
   \<and> tags hello_note \<noteq> PNone
   \<and> dump observed_yaml (note_metadata hello_note) = Inr hello_yaml \<and> clean_block hello_yaml
   \<and> safe_load observed_yaml hello_yaml = Inr (PDict (note_metadata hello_note))
   \<and> snd (snd (save_note observed_yaml notes_fs hello_note))
   \<and> cr \<notin> set (content hello_note)
   \<and> load_note observed_yaml (fst (snd (save_note observed_yaml notes_fs hello_note)))
         ''2024-08-01T12:00:00+00:00'' ''/notes/hello.md''
       = Some (hello_note\<lparr>content := ''# Hello\<newline>first line''\<rparr>)"
proof -
  obtain n' f' ok where s: "save_note observed_yaml notes_fs hello_note = (n', f', ok)"
    by (cases "save_note observed_yaml notes_fs hello_note") auto
  have ok: "snd (snd (save_note observed_yaml notes_fs hello_note))" by code_simp
  then have s': "save_note observed_yaml notes_fs hello_note = (n', f', True)" using s by simp
  have d1: "\<not> is_datetime (created hello_note)" by (simp add: hello_note_def)
  have d2: "\<not> is_datetime (updated hello_note)" by (simp add: hello_note_def)
  have tg: "tags hello_note \<noteq> PNone" by (simp add: hello_note_def)
  have du: "dump observed_yaml (note_metadata hello_note) = Inr hello_yaml" by code_simp
  have cb: "clean_block hello_yaml" by code_simp
  have sl: "safe_load observed_yaml hello_yaml = Inr (PDict (note_metadata hello_note))"
    by code_simp
  have nc: "cr \<notin> set (content hello_note)" by code_simp
  have st: "universal_newlines (str_strip (content hello_note)) = ''# Hello\<newline>first line''"
    by code_simp
  have p: "filepath hello_note = ''/notes/hello.md''" by (simp add: hello_note_def)
  have "load_note observed_yaml f' ''2024-08-01T12:00:00+00:00'' (filepath hello_note)
      = Some (hello_note\<lparr>content := universal_newlines (str_strip (content hello_note))\<rparr>)"
    using save_then_load [of hello_note observed_yaml hello_yaml notes_fs n' f'
        "''2024-08-01T12:00:00+00:00''"] d1 d2 tg du cb sl s'
    by blast
  then have "load_note observed_yaml (fst (snd (save_note observed_yaml notes_fs hello_note)))
         ''2024-08-01T12:00:00+00:00'' ''/notes/hello.md''
       = Some (hello_note\<lparr>content := ''# Hello\<newline>first line''\<rparr>)"
    using s' st p by simp
  then show ?thesis using d1 d2 tg du cb sl ok nc by simp
qed

text \<open>
  The claim as stated, for arbitrary fields, fails in four ways, one for each condition added.
  A carriage return inside the content comes back as a line feed, so the contents differ after
  stripping both.  Tags that are \<^verbatim>\<open>None\<close> come back as the empty list.  An \<open>updated\<close> that is a
  \<^verbatim>\<open>datetime\<close> comes back as its ISO text, a string.  For a path without a directory part
  \<open>save_note\<close> fails (\<^verbatim>\<open>os.makedirs('')\<close> raises), and nothing is there to load.
\<close>

theorem save_then_load_counterexample:
  "snd (snd (save_note observed_yaml notes_fs cr_note))
   \<and> load_note observed_yaml (fst (snd (save_note observed_yaml notes_fs cr_note)))
         ''2024-08-01T12:00:00+00:00'' (filepath cr_note)
       = Some (cr_note\<lparr>content := ''one\<newline>two''\<rparr>)
   \<and> str_strip ''one\<newline>two'' \<noteq> str_strip (content cr_note)
   \<and> snd (snd (save_note observed_yaml notes_fs none_tags_note))
   \<and> load_note observed_yaml (fst (snd (save_note observed_yaml notes_fs none_tags_note)))
         ''2024-08-01T12:00:00+00:00'' (filepath none_tags_note)
       = Some (none_tags_note\<lparr>tags := PList [], content := ''# Hello\<newline>first line''\<rparr>)
   \<and> PList [] \<noteq> tags none_tags_note
   \<and> snd (snd (save_note observed_yaml notes_fs dated_note))
   \<and> load_note observed_yaml (fst (snd (save_note observed_yaml notes_fs dated_note)))
         ''2024-08-01T12:00:00+00:00'' (filepath dated_note)
       = Some (dated_note\<lparr>updated := PStr ''2024-07-16T09:00:00+00:00'',
                           content := ''# Hello\<newline>first line''\<rparr>)
   \<and> PStr ''2024-07-16T09:00:00+00:00'' \<noteq> updated dated_note
   \<and> \<not> snd (snd (save_note observed_yaml notes_fs bare_note))
   \<and> load_note observed_yaml (fst (snd (save_note observed_yaml notes_fs bare_note)))
         ''2024-08-01T12:00:00+00:00'' (filepath bare_note) = None"
  by code_simp


end
